theory Spec2Isabelle
  imports Complex_Main "HOL-Library.AList" "HOL-Library.Multiset" "HOL-Library.Log_Nat"
begin

section \<open>Values, errors and library operations used by the notebooks\<close>

text \<open>
  The notebooks are Python on top of numpy, scikit-learn and torch. Exceptions are values of
  \<open>error\<close>; a computation that may raise returns \<open>error + 'a\<close> with \<open>Inl\<close> for the exception.
  A floating-point number is modelled by the real number it denotes. Rounding is modelled
  where a result is turned into an integer (the product that sizes the split, below) and left
  out elsewhere; the results of a numpy or torch division that IEEE arithmetic does not make
  finite are kept apart in \<open>fval\<close>, because numpy and torch return them instead of raising.
\<close>

datatype error = ValueError | IndexError | OverflowError | ZeroDivisionError

datatype fval = Num real | PosInf | NegInf | NaN

datatype dtype = float32 | int64

type_synonym 'a tensor = "dtype \<times> 'a"

definition and_then :: "'e + 'a \<Rightarrow> ('a \<Rightarrow> 'e + 'b) \<Rightarrow> 'e + 'b" where
  "and_then r f = (case r of Inl e \<Rightarrow> Inl e | Inr v \<Rightarrow> f v)"

text \<open>\<^verbatim>\<open>a / b\<close> on numpy float64 values: a zero divisor gives nan or a signed infinity
  (with a warning), never an exception.\<close>

definition np_divide :: "real \<Rightarrow> real \<Rightarrow> fval" where
  "np_divide a b =
     (if b = 0 then (if a = 0 then NaN else if 0 < a then PosInf else NegInf)
      else Num (a / b))"

text \<open>\<^verbatim>\<open>np.min(a)\<close> and \<^verbatim>\<open>np.max(a)\<close> reduce over the flattened array and raise
  ValueError on an array without elements.\<close>

definition np_min :: "real list list \<Rightarrow> error + real" where
  "np_min a = (case concat a of [] \<Rightarrow> Inl ValueError | v # vs \<Rightarrow> Inr (fold min vs v))"

definition np_max :: "real list list \<Rightarrow> error + real" where
  "np_max a = (case concat a of [] \<Rightarrow> Inl ValueError | v # vs \<Rightarrow> Inr (fold max vs v))"

text \<open>\<^verbatim>\<open>a[start:stop]\<close> along the first axis: negative bounds count from the end, bounds are
  clipped to the array, and an empty range gives an empty array. A slice never raises.\<close>

definition slice_rows :: "'a list \<Rightarrow> int \<Rightarrow> int \<Rightarrow> 'a list" where
  "slice_rows a start stop =
     (let n = int (length a);
          lo = (if start < 0 then max (start + n) 0 else min start n);
          hi = (if stop < 0 then max (stop + n) 0 else min stop n)
      in take (nat (hi - lo)) (drop (nat lo) a))"

text \<open>\<^verbatim>\<open>a[i, ...]\<close> along the first axis, for a Python int \<open>i\<close>: indices from \<open>-len\<close> to
  \<open>len - 1\<close> are accepted, a negative one counting from the end. Any other index raises:
  OverflowError when it lies from \<open>2^63\<close> to \<open>2^64 - 1\<close> (numpy reads it as an unsigned 64-bit
  value that does not fit its signed index type), IndexError otherwise. An array has fewer than
  \<open>2^63\<close> elements, so an index that is accepted is never in that range.\<close>

definition index_item :: "'a list \<Rightarrow> int \<Rightarrow> error + 'a" where
  "index_item a i =
     (let n = int (length a)
      in if - n \<le> i \<and> i < n then Inr (a ! nat (if i < 0 then i + n else i))
         else if 2 ^ 63 \<le> i \<and> i < 2 ^ 64 then Inl OverflowError
         else Inl IndexError)"

subsection \<open>Rounding to float64\<close>

text \<open>
  \<open>round_double x\<close> is the float64 nearest to the real \<open>x\<close>, ties to the even significand:
  with \<open>2^e \<le> |x| < 2^(e+1)\<close> (and \<open>e\<close> at least \<open>-1022\<close>, the subnormal range) the result is
  the nearest multiple of \<open>2^(e - 52)\<close>. Overflow to infinity is left out: the products rounded
  here are below the number of samples. A Python float is a real \<open>x\<close> with
  \<open>round_double x = x\<close>; the literal \<^verbatim>\<open>0.1\<close> is \<open>round_double (1 / 10)\<close>.
\<close>

definition round_half_even :: "real \<Rightarrow> int" where
  "round_half_even m =
     (let f = \<lfloor>m\<rfloor>; d = m - of_int f
      in if d < 1 / 2 then f else if 1 / 2 < d then f + 1 else if even f then f else f + 1)"

definition binary_exponent :: "real \<Rightarrow> int" where
  "binary_exponent x =
     (if 1 \<le> x then int (floorlog 2 (nat \<lfloor>x\<rfloor>)) - 1
      else - int (floorlog 2 (nat (\<lceil>1 / x\<rceil> - 1))))"

definition pow2 :: "int \<Rightarrow> real" where
  "pow2 k = (if 0 \<le> k then 2 ^ nat k else 1 / 2 ^ nat (- k))"

definition round_double :: "real \<Rightarrow> real" where
  "round_double x =
     (if x = 0 then 0
      else let u = pow2 (max (binary_exponent \<bar>x\<bar>) (- 1022) - 52)
           in sgn x * (of_int (round_half_even (\<bar>x\<bar> / u)) * u))"

subsection \<open>scikit-learn's \<^verbatim>\<open>train_test_split\<close>\<close>

text \<open>
  \<^verbatim>\<open>train_test_split(X, y, test_size=p, random_state=r)\<close> is library code. Its index
  computation is: the arrays must have the same number of samples; a float \<open>test_size\<close> must lie
  strictly between 0 and 1; \<open>n_test = ceil(test_size * n_samples)\<close>, the product being the
  float64 product of the float \<open>test_size\<close> and the int \<open>n_samples\<close>;
  \<open>n_train = n_samples - n_test\<close>, and an empty training set is refused; a generator draws one
  permutation of \<open>range(n_samples)\<close>, whose first \<open>n_test\<close> entries are the test indices and
  whose next \<open>n_train\<close> entries are the training indices.

  The generator depends on \<open>random_state\<close>. An int (from 0 to \<open>2^32 - 1\<close>) seeds a fresh
  generator: the permutation it draws for a seed and a length is the parameter
  \<open>permutation\<close>. \<open>None\<close> stands for numpy's process-wide generator, whose next draw depends
  on everything the process has drawn before: the permutation it would draw now is the
  parameter \<open>global_permutation\<close>. Neither generator is part of the repository.
\<close>

text \<open>\<^verbatim>\<open>ceil(test_size * n_samples)\<close>: the int is converted to float64, the product is rounded
  to float64, and the ceiling is an int.\<close>

definition n_test_float :: "real \<Rightarrow> nat \<Rightarrow> nat" where
  "n_test_float test_size n_samples =
     nat \<lceil>round_double (test_size * round_double (real n_samples))\<rceil>"

definition validate_shuffle_split :: "nat \<Rightarrow> real \<Rightarrow> error + (nat \<times> nat)" where
  "validate_shuffle_split n_samples test_size =
     (if test_size \<le> 0 \<or> 1 \<le> test_size then Inl ValueError
      else let n_test = n_test_float test_size n_samples;
               n_train = n_samples - n_test
           in if n_train = 0 then Inl ValueError else Inr (n_train, n_test))"

definition check_random_state ::
  "(int \<Rightarrow> nat \<Rightarrow> nat list) \<Rightarrow> (nat \<Rightarrow> nat list) \<Rightarrow> int option
     \<Rightarrow> error + (nat \<Rightarrow> nat list)" where
  "check_random_state permutation global_permutation random_state =
     (case random_state of
        None \<Rightarrow> Inr global_permutation
      | Some seed \<Rightarrow>
          if seed < 0 \<or> 2 ^ 32 \<le> seed then Inl ValueError else Inr (permutation seed))"

definition shuffle_split_indices ::
  "(int \<Rightarrow> nat \<Rightarrow> nat list) \<Rightarrow> (nat \<Rightarrow> nat list) \<Rightarrow> int option \<Rightarrow> nat \<Rightarrow> nat \<Rightarrow> nat
     \<Rightarrow> error + (nat list \<times> nat list)" where
  "shuffle_split_indices permutation global_permutation random_state n_samples n_train n_test =
     and_then (check_random_state permutation global_permutation random_state) (\<lambda>rng.
       let p = rng n_samples
       in Inr (take n_train (drop n_test p), take n_test p))"

text \<open>The pair (training indices, validation indices) that \<^verbatim>\<open>train_test_split\<close> selects for
  the arrays \<open>X\<close> and \<open>y\<close>.\<close>

definition split_indices ::
  "(int \<Rightarrow> nat \<Rightarrow> nat list) \<Rightarrow> (nat \<Rightarrow> nat list) \<Rightarrow> 'a list \<Rightarrow> 'b list \<Rightarrow> real \<Rightarrow> int option
     \<Rightarrow> error + (nat list \<times> nat list)" where
  "split_indices permutation global_permutation X y test_size random_state =
     (if length X \<noteq> length y then Inl ValueError
      else and_then (validate_shuffle_split (length X) test_size) (\<lambda>(n_train, n_test).
             shuffle_split_indices permutation global_permutation random_state (length X)
               n_train n_test))"

definition safe_indexing :: "'a list \<Rightarrow> nat list \<Rightarrow> error + 'a list" where
  "safe_indexing a indices =
     (if list_all (\<lambda>i. i < length a) indices then Inr (map (nth a) indices)
      else Inl IndexError)"

definition train_test_split ::
  "(int \<Rightarrow> nat \<Rightarrow> nat list) \<Rightarrow> (nat \<Rightarrow> nat list) \<Rightarrow> 'a list \<Rightarrow> 'b list \<Rightarrow> real \<Rightarrow> int option
     \<Rightarrow> error + ('a list \<times> 'a list \<times> 'b list \<times> 'b list)" where
  "train_test_split permutation global_permutation X y test_size random_state =
     and_then (split_indices permutation global_permutation X y test_size random_state)
       (\<lambda>(train, test).
     and_then (safe_indexing X train) (\<lambda>X_train.
     and_then (safe_indexing X test) (\<lambda>X_test.
     and_then (safe_indexing y train) (\<lambda>y_train.
     and_then (safe_indexing y test) (\<lambda>y_test.
       Inr (X_train, X_test, y_train, y_test))))))"

section \<open>The dataset class \<^verbatim>\<open>MNIST1D\<close> of the convnets notebook\<close>

text \<open>
  \<^verbatim>\<open>self.data = make_dataset(mnist1d_args)\<close> is the external generator; the arrays
  \<^verbatim>\<open>self.data['x']\<close> (one row per sample) and \<^verbatim>\<open>self.data['y']\<close> are the parameters
  \<open>data_x\<close> and \<open>data_y\<close> of the constructor. The object keeps the view it was asked for.
  The constructor passes \<^verbatim>\<open>random_state=seed\<close>, an int, to \<^verbatim>\<open>train_test_split\<close>;
  \<open>global_permutation\<close> is the state of the process-wide generator when it is called.
\<close>

record MNIST1D =
  is_training :: bool
  X_loc :: real
  X_scale :: real
  self_X :: "fval list list"
  self_y :: "int list"

definition normalise :: "real list list \<Rightarrow> real \<Rightarrow> real \<Rightarrow> fval list list" where
  "normalise a loc scale = map (map (\<lambda>v. np_divide (v - loc) scale)) a"

definition MNIST1D_init ::
  "(int \<Rightarrow> nat \<Rightarrow> nat list) \<Rightarrow> (nat \<Rightarrow> nat list) \<Rightarrow> real list list \<Rightarrow> int list \<Rightarrow> bool
     \<Rightarrow> real \<Rightarrow> int \<Rightarrow> error + MNIST1D" where
  "MNIST1D_init permutation global_permutation data_x data_y train validation_size seed =
     and_then (train_test_split permutation global_permutation data_x data_y validation_size
                 (Some seed))
       (\<lambda>(X_train, X_validation, y_train, y_validation).
     and_then (np_min X_train) (\<lambda>loc.
     and_then (np_max X_train) (\<lambda>hi.
     and_then (np_min X_train) (\<lambda>lo.
       let scale = hi - lo
       in if train
          then Inr \<lparr>is_training = train, X_loc = loc, X_scale = scale,
                    self_X = normalise X_train loc scale, self_y = y_train\<rparr>
          else Inr \<lparr>is_training = train, X_loc = loc, X_scale = scale,
                    self_X = normalise X_validation loc scale, self_y = y_validation\<rparr>))))"

definition len_MNIST1D :: "MNIST1D \<Rightarrow> nat" where
  "len_MNIST1D self = length (self_X self)"

text \<open>\<^verbatim>\<open>__getitem__\<close>: the input is the slice \<^verbatim>\<open>self.X[index:index+1, ...]\<close> cast to
  float32, the label is \<^verbatim>\<open>self.y[index, ...]\<close> cast to int64. The slice is taken first and
  cannot raise; the label access raises IndexError.\<close>

definition getitem :: "MNIST1D \<Rightarrow> int \<Rightarrow> error + (fval list list tensor \<times> int tensor)" where
  "getitem self index =
     (let X = (float32, slice_rows (self_X self) index (index + 1))
      in and_then (index_item (self_y self) index) (\<lambda>y. Inr (X, (int64, y))))"

text \<open>Shape of a two-dimensional array given by its rows. The rows do not record the width of
  an array without rows, for which \<open>[0]\<close> stands.\<close>

definition shape :: "'a list list \<Rightarrow> nat list" where
  "shape rows = (case rows of [] \<Rightarrow> [0] | r # _ \<Rightarrow> [length rows, length r])"

text \<open>The samples a map-style batch fetcher reads for a list of indices:
  \<^verbatim>\<open>[dataset[i] for i in indices]\<close>.\<close>

fun fetch :: "MNIST1D \<Rightarrow> int list \<Rightarrow> error + (fval list list tensor \<times> int tensor) list" where
  "fetch self [] = Inr []"
| "fetch self (i # is) =
     and_then (getitem self i) (\<lambda>s. and_then (fetch self is) (\<lambda>ss. Inr (s # ss)))"

section \<open>The training loops\<close>

text \<open>
  The model, the optimizer, the loss function and the accuracy score are external. Their joint
  state (parameters, optimizer accumulators, the random generator of torch) is a value of the
  type \<open>'s\<close>, and a batch is a value of \<open>'b\<close>:
  \<^item> \<open>model_train\<close> and \<open>model_eval\<close> are \<^verbatim>\<open>model.train()\<close> and \<^verbatim>\<open>model.eval()\<close>;
  \<^item> \<open>train_batch\<close> is one pass of the body of the training loop: forward pass, loss,
    \<^verbatim>\<open>backward()\<close>, \<^verbatim>\<open>optimizer.step()\<close>, \<^verbatim>\<open>optimizer.zero_grad()\<close>; it returns the new state,
    \<^verbatim>\<open>loss.item()\<close> and the accuracy of the batch;
  \<^item> \<open>eval_batch\<close> is the body of the evaluation loop under \<^verbatim>\<open>torch.no_grad()\<close>: it returns
    the loss and the accuracy of the batch and changes nothing.
  A data loader has a length \<^verbatim>\<open>len(dataloader)\<close> and, each time it is iterated, yields a
  list of batches that may depend on the state (shuffling draws from the generator).
  A loader of non-zero length is taken to yield at least one batch, so that the names
  \<^verbatim>\<open>train_loss\<close> and \<^verbatim>\<open>test_loss\<close>, bound inside the batch loops and read by the progress
  line, are bound when a line is printed.
  Moving the model to the device does not change any value and is left out.
\<close>

record ('s, 'b) collaborators =
  model_train :: "'s \<Rightarrow> 's"
  model_eval :: "'s \<Rightarrow> 's"
  train_batch :: "'s \<Rightarrow> 'b \<Rightarrow> 's \<times> real \<times> real"
  eval_batch :: "'s \<Rightarrow> 'b \<Rightarrow> real \<times> real"

record ('s, 'b) dataloader =
  dl_len :: nat
  dl_iter :: "'s \<Rightarrow> 'b list \<times> 's"

text \<open>A Python dict from metric names to lists, in insertion order.\<close>

type_synonym 'v pydict = "(string \<times> 'v list) list"

definition dict_get :: "'v pydict \<Rightarrow> string \<Rightarrow> 'v list" where
  "dict_get d k = (case map_of d k of None \<Rightarrow> [] | Some vs \<Rightarrow> vs)"

text \<open>\<^verbatim>\<open>logs[k]\<close> on a \<^verbatim>\<open>defaultdict(list)\<close>: a missing key is created with an empty list.\<close>

definition defaultdict_getitem :: "string \<Rightarrow> 'v pydict \<Rightarrow> 'v pydict" where
  "defaultdict_getitem k d = (case map_of d k of None \<Rightarrow> d @ [(k, [])] | Some vs \<Rightarrow> d)"

text \<open>\<^verbatim>\<open>d[k].append(v)\<close> on the list stored under \<open>k\<close>.\<close>

definition list_append :: "string \<Rightarrow> 'v \<Rightarrow> 'v pydict \<Rightarrow> 'v pydict" where
  "list_append k v d = AList.update k (dict_get d k @ [v]) d"

text \<open>\<^verbatim>\<open>epoch_sum / n\<close> for a Python float and an int: a zero divisor raises.\<close>

definition float_div :: "real \<Rightarrow> nat \<Rightarrow> error + real" where
  "float_div epoch_sum n = (if n = 0 then Inl ZeroDivisionError else Inr (epoch_sum / real n))"

text \<open>A \<^verbatim>\<open>for epoch in ...\<close> loop whose body may raise: the first exception ends the loop.\<close>

fun run_epochs :: "(nat \<Rightarrow> 'st \<Rightarrow> 'e + 'st) \<Rightarrow> nat list \<Rightarrow> 'st \<Rightarrow> 'e + 'st" where
  "run_epochs body [] st = Inr st"
| "run_epochs body (epoch # epochs) st = and_then (body epoch st) (run_epochs body epochs)"

subsection \<open>\<^verbatim>\<open>train_classifier\<close>\<close>

text \<open>
  The state that \<^verbatim>\<open>train_classifier\<close> changes: the collaborators' state, the dict \<open>logs\<close>
  (the caller's object, changed in place, so an exception leaves it as it was when raised) and
  the lines printed so far; a progress line is recorded as the pair of \<open>epoch + 1\<close> and
  \<open>max_epochs\<close> that it shows. A failure returns the exception with the state reached.
\<close>

record 's run_state =
  world :: 's
  logs :: "real pydict"
  printed :: "(nat \<times> int) list"

definition train_pass :: "('s, 'b) collaborators \<Rightarrow> 'b list \<Rightarrow> 's \<Rightarrow> 's \<times> real \<times> real" where
  "train_pass C batches s =
     fold (\<lambda>b (s, loss_sum, acc_sum).
             case train_batch C s b of (s', l, a) \<Rightarrow> (s', loss_sum + l, acc_sum + a))
          batches (s, 0, 0)"

definition eval_pass :: "('s, 'b) collaborators \<Rightarrow> 'b list \<Rightarrow> 's \<Rightarrow> real \<times> real" where
  "eval_pass C batches s =
     fold (\<lambda>b (loss_sum, acc_sum).
             case eval_batch C s b of (l, a) \<Rightarrow> (loss_sum + l, acc_sum + a))
          batches (0, 0)"

text \<open>The two passes of one epoch: the state after them and the four sums
  (train loss, train accuracy, test loss, test accuracy).\<close>

definition epoch_passes ::
  "('s, 'b) collaborators \<Rightarrow> ('s, 'b) dataloader \<Rightarrow> ('s, 'b) dataloader \<Rightarrow> 's
     \<Rightarrow> 's \<times> real \<times> real \<times> real \<times> real" where
  "epoch_passes C train_dataloader test_dataloader s =
     (let (train_batches, s1) = dl_iter train_dataloader (model_train C s);
          (s2, train_loss_epoch_sum, train_acc_epoch_sum) = train_pass C train_batches s1;
          (test_batches, s3) = dl_iter test_dataloader (model_eval C s2);
          (test_loss_epoch_sum, test_acc_epoch_sum) = eval_pass C test_batches s3
      in (s3, train_loss_epoch_sum, train_acc_epoch_sum, test_loss_epoch_sum, test_acc_epoch_sum))"

text \<open>\<^verbatim>\<open>logs[key].append(epoch_sum / n)\<close>: the key is looked up (and created) first, then the
  quotient is computed, then the value is appended.\<close>

definition log_mean ::
  "string \<Rightarrow> real \<Rightarrow> nat \<Rightarrow> 's run_state \<Rightarrow> (error \<times> 's run_state) + 's run_state" where
  "log_mean key epoch_sum n st =
     (let st1 = st\<lparr>logs := defaultdict_getitem key (logs st)\<rparr>
      in case float_div epoch_sum n of
           Inl e \<Rightarrow> Inl (e, st1)
         | Inr m \<Rightarrow> Inr (st1\<lparr>logs := list_append key m (logs st1)\<rparr>))"

definition train_classifier_epoch ::
  "('s, 'b) collaborators \<Rightarrow> ('s, 'b) dataloader \<Rightarrow> ('s, 'b) dataloader \<Rightarrow> int \<Rightarrow> int
     \<Rightarrow> nat \<Rightarrow> 's run_state \<Rightarrow> (error \<times> 's run_state) + 's run_state" where
  "train_classifier_epoch C train_dataloader test_dataloader max_epochs log_every epoch st =
     (case epoch_passes C train_dataloader test_dataloader (world st) of
        (s, train_loss_epoch_sum, train_acc_epoch_sum, test_loss_epoch_sum, test_acc_epoch_sum) \<Rightarrow>
     and_then (log_mean ''train_loss'' train_loss_epoch_sum (dl_len train_dataloader)
                 (st\<lparr>world := s\<rparr>)) (\<lambda>st.
     and_then (log_mean ''test_loss'' test_loss_epoch_sum (dl_len test_dataloader) st) (\<lambda>st.
     and_then (log_mean ''train_acc'' train_acc_epoch_sum (dl_len train_dataloader) st) (\<lambda>st.
     and_then (log_mean ''test_acc'' test_acc_epoch_sum (dl_len test_dataloader) st) (\<lambda>st.
       if log_every = 0 then Inl (ZeroDivisionError, st)
       else if (int epoch + 1) mod log_every = 0 \<or> int epoch + 1 = max_epochs
            then Inr (st\<lparr>printed := printed st @ [(epoch + 1, max_epochs)]\<rparr>)
            else Inr st)))))"

definition train_classifier ::
  "('s, 'b) collaborators \<Rightarrow> ('s, 'b) dataloader \<Rightarrow> ('s, 'b) dataloader \<Rightarrow> int \<Rightarrow> int
     \<Rightarrow> 's run_state \<Rightarrow> (error \<times> 's run_state) + 's run_state" where
  "train_classifier C train_dataloader test_dataloader max_epochs log_every st =
     run_epochs (train_classifier_epoch C train_dataloader test_dataloader max_epochs log_every)
       [0..<nat max_epochs] st"

subsection \<open>The training cell of the convnets notebook\<close>

text \<open>
  The cell keeps four tensors of per-batch values, allocated once with
  \<^verbatim>\<open>torch.zeros((len(dataloader),))\<close>, writes the value of batch \<open>idx\<close> at position \<open>idx\<close>
  (IndexError beyond the end) and appends the \<^verbatim>\<open>mean()\<close> of each tensor to the lists of the
  dict \<open>results\<close>, which the cell creates with its four keys. The mean of an empty tensor is
  nan. \<open>max_epochs\<close> and \<open>log_every\<close> are the variables of the cell (60 and 5 there).
\<close>

record 's cell_state =
  cell_world :: 's
  results :: "fval pydict"
  train_loss :: "real list"
  train_acc :: "real list"
  validation_loss :: "real list"
  validation_acc :: "real list"
  cell_printed :: "(nat \<times> int) list"

definition tensor_mean :: "real list \<Rightarrow> fval" where
  "tensor_mean t = (if t = [] then NaN else Num (sum_list t / real (length t)))"

definition tensor_setitem :: "real list \<Rightarrow> nat \<Rightarrow> real \<Rightarrow> error + real list" where
  "tensor_setitem t idx v = (if idx < length t then Inr (t[idx := v]) else Inl IndexError)"

fun enumerate_train ::
  "('s, 'b) collaborators \<Rightarrow> nat \<Rightarrow> 'b list \<Rightarrow> 's \<times> real list \<times> real list
     \<Rightarrow> error + ('s \<times> real list \<times> real list)" where
  "enumerate_train C idx [] acc = Inr acc"
| "enumerate_train C idx (b # bs) (s, t_loss, t_acc) =
     (case train_batch C s b of (s', l, a) \<Rightarrow>
        and_then (tensor_setitem t_loss idx l) (\<lambda>t_loss'.
        and_then (tensor_setitem t_acc idx a) (\<lambda>t_acc'.
          enumerate_train C (Suc idx) bs (s', t_loss', t_acc'))))"

fun enumerate_validation ::
  "('s, 'b) collaborators \<Rightarrow> 's \<Rightarrow> nat \<Rightarrow> 'b list \<Rightarrow> real list \<times> real list
     \<Rightarrow> error + (real list \<times> real list)" where
  "enumerate_validation C s idx [] acc = Inr acc"
| "enumerate_validation C s idx (b # bs) (v_loss, v_acc) =
     (case eval_batch C s b of (l, a) \<Rightarrow>
        and_then (tensor_setitem v_loss idx l) (\<lambda>v_loss'.
        and_then (tensor_setitem v_acc idx a) (\<lambda>v_acc'.
          enumerate_validation C s (Suc idx) bs (v_loss', v_acc'))))"

text \<open>The four \<^verbatim>\<open>results[key].append(tensor.mean())\<close> statements that end an epoch, in the
  order in which the cell executes them.\<close>

definition cell_appends ::
  "real list \<Rightarrow> real list \<Rightarrow> real list \<Rightarrow> real list \<Rightarrow> (string \<times> fval) list" where
  "cell_appends t_loss t_acc v_loss v_acc =
     [(''train_losses'', tensor_mean t_loss),
      (''train_acc'', tensor_mean t_acc),
      (''validation_losses'', tensor_mean v_loss),
      (''validation_acc'', tensor_mean v_acc)]"

definition training_cell_epoch ::
  "('s, 'b) collaborators \<Rightarrow> ('s, 'b) dataloader \<Rightarrow> ('s, 'b) dataloader \<Rightarrow> int \<Rightarrow> int
     \<Rightarrow> nat \<Rightarrow> 's cell_state \<Rightarrow> error + 's cell_state" where
  "training_cell_epoch C train_dataloader validation_dataloader max_epochs log_every epoch st =
     (case dl_iter train_dataloader (model_train C (cell_world st)) of (train_batches, s1) \<Rightarrow>
     and_then (enumerate_train C 0 train_batches (s1, train_loss st, train_acc st))
       (\<lambda>(s2, t_loss, t_acc).
     case dl_iter validation_dataloader (model_eval C s2) of (validation_batches, s3) \<Rightarrow>
     and_then (enumerate_validation C s3 0 validation_batches
                 (validation_loss st, validation_acc st))
       (\<lambda>(v_loss, v_acc).
     let r = fold (\<lambda>(k, m). list_append k m) (cell_appends t_loss t_acc v_loss v_acc)
               (results st);
         st' = st\<lparr>cell_world := s3, results := r, train_loss := t_loss, train_acc := t_acc,
                  validation_loss := v_loss, validation_acc := v_acc\<rparr>
     in if log_every = 0 then Inl ZeroDivisionError
        else if int epoch mod log_every = 0 \<or> int epoch + 1 = max_epochs
             then Inr (st'\<lparr>cell_printed := cell_printed st' @ [(epoch + 1, max_epochs)]\<rparr>)
             else Inr st')))"

definition training_cell ::
  "('s, 'b) collaborators \<Rightarrow> ('s, 'b) dataloader \<Rightarrow> ('s, 'b) dataloader \<Rightarrow> int \<Rightarrow> int
     \<Rightarrow> 's \<Rightarrow> error + 's cell_state" where
  "training_cell C train_dataloader validation_dataloader max_epochs log_every s =
     run_epochs (training_cell_epoch C train_dataloader validation_dataloader max_epochs log_every)
       [0..<nat max_epochs]
       \<lparr>cell_world = s,
        results = [(''train_losses'', []), (''validation_losses'', []),
                   (''train_acc'', []), (''validation_acc'', [])],
        train_loss = replicate (dl_len train_dataloader) 0,
        train_acc = replicate (dl_len train_dataloader) 0,
        validation_loss = replicate (dl_len validation_dataloader) 0,
        validation_acc = replicate (dl_len validation_dataloader) 0,
        cell_printed = []\<rparr>"

section \<open>Auxiliary notions for the statements\<close>

text \<open>The minimum and the range of the values in the rows of \<open>x\<close> at the indices \<open>tr\<close>:
  what \<^verbatim>\<open>np.min(X_train)\<close> and \<^verbatim>\<open>np.max(X_train) - np.min(X_train)\<close> denote.\<close>

definition tstats :: "real list list \<Rightarrow> nat list \<Rightarrow> real \<times> real" where
  "tstats x tr = (Min (set (concat (map (nth x) tr))),
                  Max (set (concat (map (nth x) tr))) - Min (set (concat (map (nth x) tr))))"

text \<open>\<^verbatim>\<open>logs[k].append(v)\<close> as a whole, when nothing fails in between.\<close>

definition dict_append :: "string \<Rightarrow> 'v \<Rightarrow> 'v pydict \<Rightarrow> 'v pydict" where
  "dict_append k v d = list_append k v (defaultdict_getitem k d)"

text \<open>What one epoch of \<^verbatim>\<open>train_classifier\<close> that does not fail does to the collaborators'
  state and to \<open>logs\<close>.\<close>

definition epoch_effect ::
  "('s, 'b) collaborators \<Rightarrow> ('s, 'b) dataloader \<Rightarrow> ('s, 'b) dataloader
     \<Rightarrow> 's \<times> real pydict \<Rightarrow> 's \<times> real pydict" where
  "epoch_effect C train_dataloader test_dataloader = (\<lambda>(s, d).
     case epoch_passes C train_dataloader test_dataloader s of
       (s', train_loss_sum, train_acc_sum, test_loss_sum, test_acc_sum) \<Rightarrow>
         (s', dict_append ''test_acc'' (test_acc_sum / real (dl_len test_dataloader))
               (dict_append ''train_acc'' (train_acc_sum / real (dl_len train_dataloader))
               (dict_append ''test_loss'' (test_loss_sum / real (dl_len test_dataloader))
               (dict_append ''train_loss'' (train_loss_sum / real (dl_len train_dataloader)) d)))))"

text \<open>The values of a training pass spelled out batch by batch: the state after the last
  batch and the pair (loss, accuracy) of every batch, in order.\<close>

fun train_values ::
  "('s, 'b) collaborators \<Rightarrow> 'b list \<Rightarrow> 's \<Rightarrow> 's \<times> (real \<times> real) list" where
  "train_values C [] s = (s, [])"
| "train_values C (b # bs) s =
     (case train_batch C s b of (s', l, a) \<Rightarrow>
        case train_values C bs s' of (s'', vs) \<Rightarrow> (s'', (l, a) # vs))"

text \<open>The means of one epoch in the words of the specification: the state after the epoch,
  then mean train loss, mean eval loss, mean train accuracy and mean eval accuracy, each the
  sum of the per-batch values divided by the length of the loader.\<close>

definition epoch_means ::
  "('s, 'b) collaborators \<Rightarrow> ('s, 'b) dataloader \<Rightarrow> ('s, 'b) dataloader \<Rightarrow> 's
     \<Rightarrow> 's \<times> real \<times> real \<times> real \<times> real" where
  "epoch_means C train_dataloader eval_dataloader s =
     (case dl_iter train_dataloader (model_train C s) of (train_batches, s1) \<Rightarrow>
      case train_values C train_batches s1 of (s2, tv) \<Rightarrow>
      case dl_iter eval_dataloader (model_eval C s2) of (eval_batches, s3) \<Rightarrow>
      let ev = map (eval_batch C s3) eval_batches
      in (s3,
          sum_list (map fst tv) / real (dl_len train_dataloader),
          sum_list (map fst ev) / real (dl_len eval_dataloader),
          sum_list (map snd tv) / real (dl_len train_dataloader),
          sum_list (map snd ev) / real (dl_len eval_dataloader)))"

text \<open>The four tensors of the training cell have the lengths of their loaders.\<close>

definition cell_inv :: "('s, 'b) dataloader \<Rightarrow> ('s, 'b) dataloader \<Rightarrow> 's cell_state \<Rightarrow> bool" where
  "cell_inv train_dataloader validation_dataloader st \<longleftrightarrow>
     length (train_loss st) = dl_len train_dataloader
   \<and> length (train_acc st) = dl_len train_dataloader
   \<and> length (validation_loss st) = dl_len validation_dataloader
   \<and> length (validation_acc st) = dl_len validation_dataloader"

section \<open>Properties of the dataset class\<close>

subsection \<open>Results of the library operations\<close>

lemma and_then_simps [simp]:
  "and_then (Inr v) f = f v" "and_then (Inl e) f = Inl e"
  by (simp_all add: and_then_def)

lemma and_then_eq_Inr: "and_then r f = Inr z \<longleftrightarrow> (\<exists>v. r = Inr v \<and> f v = Inr z)"
  by (cases r) simp_all

subsection \<open>Rounding and the size of the test set\<close>

lemma round_half_even_ge: "of_int z \<le> m \<Longrightarrow> z \<le> round_half_even m"
proof -
  assume "of_int z \<le> m"
  then have "z \<le> \<lfloor>m\<rfloor>" by (simp add: le_floor_iff)
  then show ?thesis by (simp add: round_half_even_def Let_def)
qed

lemma round_half_even_le: "m \<le> of_int z \<Longrightarrow> round_half_even m \<le> z"
proof -
  assume a: "m \<le> of_int z"
  have f: "\<lfloor>m\<rfloor> \<le> z" using floor_mono[OF a] by simp
  show ?thesis
  proof (cases "m - of_int \<lfloor>m\<rfloor> < 1 / 2")
    case True
    then show ?thesis using f by (simp add: round_half_even_def Let_def)
  next
    case False
    then have "of_int \<lfloor>m\<rfloor> < m" by linarith
    with a have "of_int \<lfloor>m\<rfloor> < (of_int z :: real)" by linarith
    then have "\<lfloor>m\<rfloor> < z" by linarith
    then show ?thesis by (simp add: round_half_even_def Let_def)
  qed
qed

lemma pow2_nonpositive: "k \<le> 0 \<Longrightarrow> pow2 k = 1 / 2 ^ nat (- k)"
  by (cases "k = 0") (simp_all add: pow2_def)

lemma binary_exponent_le_52:
  assumes "0 < x" "x < 2 ^ 53"
  shows "binary_exponent x \<le> 52"
proof (cases "1 \<le> x")
  case True
  have "\<lfloor>x\<rfloor> < 2 ^ 53" using assms(2) by (simp add: floor_less_iff)
  moreover have "0 \<le> \<lfloor>x\<rfloor>" using True by simp
  ultimately have "nat \<lfloor>x\<rfloor> < 2 ^ 53" by (simp add: nat_less_iff)
  then have "floorlog 2 (nat \<lfloor>x\<rfloor>) \<le> 53" by (intro floorlog_leI) simp_all
  then show ?thesis using True by (simp add: binary_exponent_def)
next
  case False
  then show ?thesis by (simp add: binary_exponent_def)
qed

lemma round_double_brackets:
  assumes "0 < x" "x < 2 ^ 53"
  shows "of_int j \<le> x \<Longrightarrow> of_int j \<le> round_double x"
    and "x \<le> of_int j \<Longrightarrow> round_double x \<le> of_int j"
proof -
  define k where "k = max (binary_exponent \<bar>x\<bar>) (- 1022) - 52"
  define q where "q = nat (- k)"
  have "binary_exponent \<bar>x\<bar> \<le> 52" using binary_exponent_le_52[OF assms] assms(1) by simp
  then have k: "k \<le> 0" unfolding k_def by simp
  have u: "pow2 k = 1 / 2 ^ q" unfolding q_def by (rule pow2_nonpositive[OF k])
  have rd: "round_double x = of_int (round_half_even (x * 2 ^ q)) / 2 ^ q"
    using assms(1) unfolding round_double_def Let_def k_def[symmetric] u by simp
  {
    assume "of_int j \<le> x"
    then have "(of_int (j * 2 ^ q) :: real) \<le> x * 2 ^ q" by simp
    then have "j * 2 ^ q \<le> round_half_even (x * 2 ^ q)" by (rule round_half_even_ge)
    then have "(of_int (j * 2 ^ q) :: real) \<le> of_int (round_half_even (x * 2 ^ q))"
      by (simp only: of_int_le_iff)
    then show "of_int j \<le> round_double x" unfolding rd by (simp add: field_simps)
  }
  {
    assume "x \<le> of_int j"
    then have "x * 2 ^ q \<le> (of_int (j * 2 ^ q) :: real)" by simp
    then have "round_half_even (x * 2 ^ q) \<le> j * 2 ^ q" by (rule round_half_even_le)
    then have "(of_int (round_half_even (x * 2 ^ q)) :: real) \<le> of_int (j * 2 ^ q)"
      by (simp only: of_int_le_iff)
    then show "round_double x \<le> of_int j" unfolding rd by (simp add: field_simps)
  }
qed

lemma round_double_of_nat:
  assumes "n < 2 ^ 53"
  shows "round_double (real n) = real n"
proof (cases "n = 0")
  case True
  then show ?thesis by (simp add: round_double_def)
next
  case False
  have x: "0 < real n" "real n < 2 ^ 53" using False assms by simp_all
  have "of_int (int n) \<le> round_double (real n)"
    by (rule round_double_brackets(1)[OF x]) simp
  moreover have "round_double (real n) \<le> of_int (int n)"
    by (rule round_double_brackets(2)[OF x]) simp
  ultimately show ?thesis by simp
qed

lemma n_test_float_near:
  assumes "0 < p" "p < 1" "0 < n" "n < 2 ^ 53"
  shows "\<bar>real (n_test_float p n) - p * real n\<bar> < 1"
    and "n_test_float p n \<le> n"
proof -
  define x where "x = p * real n"
  define k where "k = \<lceil>x\<rceil>"
  have x0: "0 < x" unfolding x_def using assms by simp
  have xn: "x < real n" unfolding x_def using assms by simp
  have "real n < 2 ^ 53" using assms(4) by (metis of_nat_less_numeral_power_cancel_iff)
  then have x53: "x < 2 ^ 53" using xn by linarith
  have k1: "of_int (k - 1) < x" "x \<le> of_int k" unfolding k_def by linarith+
  have lo: "of_int (k - 1) \<le> round_double x"
    by (rule round_double_brackets(1)[OF x0 x53]) (use k1 in simp)
  have hi: "round_double x \<le> of_int k"
    by (rule round_double_brackets(2)[OF x0 x53]) (use k1 in simp)
  have c: "k - 1 \<le> \<lceil>round_double x\<rceil>" "\<lceil>round_double x\<rceil> \<le> k"
    using lo hi by (simp_all add: ceiling_le_iff le_ceiling_iff) 
  have kpos: "1 \<le> k" using x0 unfolding k_def by linarith
  have t: "n_test_float p n = nat \<lceil>round_double x\<rceil>"
    unfolding n_test_float_def x_def round_double_of_nat[OF assms(4)] ..
  have eqk: "\<lceil>round_double x\<rceil> = k" if "x = of_int k"
  proof -
    have "of_int k \<le> round_double x"
      by (rule round_double_brackets(1)[OF x0 x53]) (use that in simp)
    then have "k \<le> \<lceil>round_double x\<rceil>" by (simp add: le_ceiling_iff)
    with c(2) show ?thesis by simp
  qed
  have "\<bar>of_int \<lceil>round_double x\<rceil> - x\<bar> < 1"
  proof (cases "\<lceil>round_double x\<rceil> = k")
    case True
    then show ?thesis using k1 by simp
  next
    case False
    then have e: "\<lceil>round_double x\<rceil> = k - 1" using c by linarith
    have "x \<noteq> of_int k" using eqk False by blast
    then have "x < of_int k" using k1(2) by linarith
    then show ?thesis unfolding e using k1(1) by simp
  qed
  moreover have "0 \<le> \<lceil>round_double x\<rceil>" using c(1) kpos by linarith
  ultimately show "\<bar>real (n_test_float p n) - p * real n\<bar> < 1"
    unfolding t x_def[symmetric] by simp
  have "k \<le> int n" unfolding k_def using xn by (simp add: ceiling_le_iff)
  then show "n_test_float p n \<le> n" unfolding t using c(2) by linarith
qed

lemma n_test_float_4000: "n_test_float (round_double (1 / 10)) 4000 = 400"
proof -
  have p: "round_double (1 / 10) = 3602879701896397 / 36028797018963968" by code_simp
  have n: "round_double (real 4000) = real 4000" by (rule round_double_of_nat) simp
  have "round_double (3602879701896397 / 36028797018963968 * 4000) = 400" by code_simp
  then show ?thesis unfolding n_test_float_def p n by simp
qed

text \<open>The product is taken in float64: \<^verbatim>\<open>0.07 * 100\<close> is the float just above 7, so 8 of 100
  samples go to the test set, where the exact product would give 7.\<close>

lemma n_test_float_100: "n_test_float (round_double (7 / 100)) 100 = 8"
proof -
  have p: "round_double (7 / 100) = 1261007895663739 / 18014398509481984" by code_simp
  have n: "round_double 100 = 100" using round_double_of_nat[of 100] by simp
  have e: "real 100 = 100" by simp
  have r: "round_double (1261007895663739 / 18014398509481984 * 100) = 7881299347898369 / 1125899906842624" by code_simp
  have c: "nat \<lceil>7881299347898369 / 1125899906842624 :: real\<rceil> = 8" by code_simp
  show ?thesis unfolding n_test_float_def p n e r by (rule c)
qed

subsection \<open>The split\<close>

lemma split_indices_Inr:
  assumes "split_indices perm gperm X y p (Some seed) = Inr (tr, te)"
  shows "length X = length y \<and> 0 < p \<and> p < 1 \<and> 0 \<le> seed \<and> seed < 2 ^ 32
         \<and> n_test_float p (length X) < length X
         \<and> te = take (n_test_float p (length X)) (perm seed (length X))
         \<and> tr = take (length X - n_test_float p (length X))
                  (drop (n_test_float p (length X)) (perm seed (length X)))"
  using assms
  by (auto simp: split_indices_def validate_shuffle_split_def shuffle_split_indices_def
        check_random_state_def Let_def and_then_eq_Inr split: if_splits)

lemma shuffle_split_indices_seeded:
  "shuffle_split_indices perm g1 (Some seed) n n_train n_test
     = shuffle_split_indices perm g2 (Some seed) n n_train n_test"
  by (simp add: shuffle_split_indices_def check_random_state_def)

lemma split_indices_seeded:
  "split_indices perm g1 X y p (Some seed) = split_indices perm g2 X y p (Some seed)"
  unfolding split_indices_def shuffle_split_indices_seeded[of perm g1 seed _ _ _ g2] ..

lemma MNIST1D_init_seeded:
  "MNIST1D_init perm g1 x ys train p seed = MNIST1D_init perm g2 x ys train p seed"
  by (simp add: MNIST1D_init_def train_test_split_def split_indices_seeded[of perm g1 x ys p seed g2])

text \<open>With \<^verbatim>\<open>random_state=None\<close> the split would follow the process-wide generator.\<close>

lemma split_indices_unseeded:
  "split_indices perm (\<lambda>n. [0..<n]) [[0], [1], [2], [3::real]] [0, 1, 2, 3::int] (1 / 4) None
     = Inr ([1, 2, 3], [0])"
  "split_indices perm (\<lambda>n. rev [0..<n]) [[0], [1], [2], [3::real]] [0, 1, 2, 3::int] (1 / 4) None
     = Inr ([2, 1, 0], [3])"
  by code_simp+

lemma split_indices_length_only:
  "length X' = length X \<Longrightarrow> length y' = length y \<Longrightarrow>
   split_indices perm gperm X' y' p (Some seed) = split_indices perm gperm X y p (Some seed)"
  by (simp add: split_indices_def)

lemma safe_indexing_Inr:
  "safe_indexing a idx = Inr r \<longleftrightarrow> (\<forall>i\<in>set idx. i < length a) \<and> r = map (nth a) idx"
  by (auto simp: safe_indexing_def list_all_iff)

lemma train_test_split_Inr:
  "train_test_split perm gperm X y p (Some seed) = Inr (Xtr, Xte, ytr, yte) \<longleftrightarrow>
   (\<exists>tr te. split_indices perm gperm X y p (Some seed) = Inr (tr, te)
      \<and> (\<forall>i\<in>set tr. i < length X) \<and> (\<forall>i\<in>set te. i < length X)
      \<and> Xtr = map (nth X) tr \<and> Xte = map (nth X) te
      \<and> ytr = map (nth y) tr \<and> yte = map (nth y) te)"
proof (cases "split_indices perm gperm X y p (Some seed)")
  case (Inl e)
  then show ?thesis by (simp add: train_test_split_def)
next
  case (Inr r)
  obtain tr te where r: "r = (tr, te)" by (cases r)
  have len: "length y = length X" using split_indices_Inr[OF Inr[unfolded r]] by simp
  have "train_test_split perm gperm X y p (Some seed) = Inr (Xtr, Xte, ytr, yte) \<longleftrightarrow>
     (\<forall>i\<in>set tr. i < length X) \<and> (\<forall>i\<in>set te. i < length X)
      \<and> Xtr = map (nth X) tr \<and> Xte = map (nth X) te
      \<and> ytr = map (nth y) tr \<and> yte = map (nth y) te"
    unfolding train_test_split_def Inr r
    by (simp add: and_then_eq_Inr safe_indexing_Inr len) blast
  then show ?thesis unfolding Inr r by simp
qed

lemma np_min_eq:
  "np_min a = (if concat a = [] then Inl ValueError else Inr (Min (set (concat a))))"
proof (cases "concat a")
  case Nil
  show ?thesis unfolding np_min_def Nil by simp
next
  case (Cons v vs)
  have "fold min vs v = Min (set (v # vs))" by (rule Min.set_eq_fold[symmetric])
  then show ?thesis unfolding np_min_def Cons by simp
qed

lemma np_max_eq:
  "np_max a = (if concat a = [] then Inl ValueError else Inr (Max (set (concat a))))"
proof (cases "concat a")
  case Nil
  show ?thesis unfolding np_max_def Nil by simp
next
  case (Cons v vs)
  have "fold max vs v = Max (set (v # vs))" by (rule Max.set_eq_fold[symmetric])
  then show ?thesis unfolding np_max_def Cons by simp
qed

lemma MNIST1D_init_Inr:
  "MNIST1D_init perm gperm x ys train p seed = Inr d \<longleftrightarrow>
   (\<exists>tr te. split_indices perm gperm x ys p (Some seed) = Inr (tr, te)
      \<and> (\<forall>i\<in>set tr. i < length x) \<and> (\<forall>i\<in>set te. i < length x)
      \<and> concat (map (nth x) tr) \<noteq> []
      \<and> d = \<lparr>is_training = train,
              X_loc = fst (tstats x tr), X_scale = snd (tstats x tr),
              self_X = normalise (map (nth x) (if train then tr else te))
                         (fst (tstats x tr)) (snd (tstats x tr)),
              self_y = map (nth ys) (if train then tr else te)\<rparr>)"
proof -
  let ?R = "\<lambda>Xtr Xte ytr yte. concat Xtr \<noteq> []
       \<and> d = \<lparr>is_training = train, X_loc = Min (set (concat Xtr)),
               X_scale = Max (set (concat Xtr)) - Min (set (concat Xtr)),
               self_X = normalise (if train then Xtr else Xte) (Min (set (concat Xtr)))
                          (Max (set (concat Xtr)) - Min (set (concat Xtr))),
               self_y = (if train then ytr else yte)\<rparr>"
  have step: "MNIST1D_init perm gperm x ys train p seed = Inr d \<longleftrightarrow>
    (\<exists>Xtr Xte ytr yte. train_test_split perm gperm x ys p (Some seed) = Inr (Xtr, Xte, ytr, yte)
       \<and> ?R Xtr Xte ytr yte)"
  proof (cases "train_test_split perm gperm x ys p (Some seed)")
    case (Inl e)
    then show ?thesis by (simp add: MNIST1D_init_def)
  next
    case (Inr r)
    obtain Xtr Xte ytr yte where r: "r = (Xtr, Xte, ytr, yte)" by (cases r)
    have "MNIST1D_init perm gperm x ys train p seed = Inr d \<longleftrightarrow> ?R Xtr Xte ytr yte"
      unfolding MNIST1D_init_def Inr r
      by (cases "concat Xtr = []"; cases train)
         (auto simp add: np_min_eq np_max_eq Let_def simp del: set_concat concat_eq_Nil_conv)
    then show ?thesis unfolding Inr r by simp
  qed
  show ?thesis
    unfolding step train_test_split_Inr tstats_def fst_conv snd_conv
  proof (intro iffI; elim exE conjE)
    fix Xtr Xte ytr yte tr te
    assume "split_indices perm gperm x ys p (Some seed) = Inr (tr, te)"
      "\<forall>i\<in>set tr. i < length x" "\<forall>i\<in>set te. i < length x"
      "Xtr = map (nth x) tr" "Xte = map (nth x) te" "ytr = map (nth ys) tr" "yte = map (nth ys) te"
      "concat Xtr \<noteq> []"
      "d = \<lparr>is_training = train, X_loc = Min (set (concat Xtr)),
               X_scale = Max (set (concat Xtr)) - Min (set (concat Xtr)),
               self_X = normalise (if train then Xtr else Xte) (Min (set (concat Xtr)))
                          (Max (set (concat Xtr)) - Min (set (concat Xtr))),
               self_y = (if train then ytr else yte)\<rparr>"
    then show "\<exists>tr te. split_indices perm gperm x ys p (Some seed) = Inr (tr, te)
      \<and> (\<forall>i\<in>set tr. i < length x) \<and> (\<forall>i\<in>set te. i < length x)
      \<and> concat (map (nth x) tr) \<noteq> []
      \<and> d = \<lparr>is_training = train,
              X_loc = Min (set (concat (map (nth x) tr))),
              X_scale = Max (set (concat (map (nth x) tr))) - Min (set (concat (map (nth x) tr))),
              self_X = normalise (map (nth x) (if train then tr else te))
                         (Min (set (concat (map (nth x) tr))))
                         (Max (set (concat (map (nth x) tr))) - Min (set (concat (map (nth x) tr)))),
              self_y = map (nth ys) (if train then tr else te)\<rparr>"
      by (intro exI[of _ tr] exI[of _ te]) (simp del: set_concat concat_eq_Nil_conv)
  next
    fix tr te
    assume "split_indices perm gperm x ys p (Some seed) = Inr (tr, te)"
      "\<forall>i\<in>set tr. i < length x" "\<forall>i\<in>set te. i < length x"
      "concat (map (nth x) tr) \<noteq> []"
      "d = \<lparr>is_training = train,
              X_loc = Min (set (concat (map (nth x) tr))),
              X_scale = Max (set (concat (map (nth x) tr))) - Min (set (concat (map (nth x) tr))),
              self_X = normalise (map (nth x) (if train then tr else te))
                         (Min (set (concat (map (nth x) tr))))
                         (Max (set (concat (map (nth x) tr))) - Min (set (concat (map (nth x) tr)))),
              self_y = map (nth ys) (if train then tr else te)\<rparr>"
    then show "\<exists>Xtr Xte ytr yte.
       (\<exists>tr te. split_indices perm gperm x ys p (Some seed) = Inr (tr, te)
          \<and> (\<forall>i\<in>set tr. i < length x) \<and> (\<forall>i\<in>set te. i < length x)
          \<and> Xtr = map (nth x) tr \<and> Xte = map (nth x) te
          \<and> ytr = map (nth ys) tr \<and> yte = map (nth ys) te)
       \<and> concat Xtr \<noteq> []
       \<and> d = \<lparr>is_training = train, X_loc = Min (set (concat Xtr)),
               X_scale = Max (set (concat Xtr)) - Min (set (concat Xtr)),
               self_X = normalise (if train then Xtr else Xte) (Min (set (concat Xtr)))
                          (Max (set (concat Xtr)) - Min (set (concat Xtr))),
               self_y = (if train then ytr else yte)\<rparr>"
      by (intro exI[of _ "map (nth x) tr"] exI[of _ "map (nth x) te"]
            exI[of _ "map (nth ys) tr"] exI[of _ "map (nth ys) te"] conjI exI[of _ tr] exI[of _ te])
         (simp_all del: set_concat concat_eq_Nil_conv)
  qed
qed

lemma perm_split:
  assumes "mset P = mset [0..<n]" "k < n"
  shows "set (take (n - k) (drop k P)) \<inter> set (take k P) = {}"
    and "set (take (n - k) (drop k P)) \<union> set (take k P) = {0..<n}"
    and "distinct (take (n - k) (drop k P))" and "distinct (take k P)"
    and "length (take (n - k) (drop k P)) = n - k" and "length (take k P) = k"
proof -
  have len: "length P = n" using mset_eq_length[OF assms(1)] by simp
  have d: "distinct P" using mset_eq_imp_distinct_iff[OF assms(1)] by simp
  have s: "set P = {0..<n}" using mset_eq_setD[OF assms(1)] by simp
  have t: "take (n - k) (drop k P) = drop k P" using len by simp
  have "distinct (take k P @ drop k P)" using d by simp
  then have i: "set (take k P) \<inter> set (drop k P) = {}" by (simp only: distinct_append)
  have u: "set (take k P) \<union> set (drop k P) = set P"
    by (simp only: set_append[symmetric] append_take_drop_id)
  show "set (take (n - k) (drop k P)) \<inter> set (take k P) = {}"
    unfolding t using i by (simp only: Int_commute)
  show "set (take (n - k) (drop k P)) \<union> set (take k P) = {0..<n}"
    unfolding t using u s by (simp only: Un_commute)
  show "distinct (take (n - k) (drop k P))" unfolding t using d by simp
  show "distinct (take k P)" using d by simp
  show "length (take (n - k) (drop k P)) = n - k" using len by simp
  show "length (take k P) = k" using len assms(2) by simp
qed

subsection \<open>Normalization statistics\<close>

text \<open>
  Claim C1 (leakage-freedom of the normalization). Let \<open>x'\<close> be a raw sample set that agrees
  with \<open>x\<close> on every training index of the split and is arbitrary on the validation indices.
  Then the dataset built from \<open>x'\<close> (either view) has the same \<open>X_loc\<close> and \<open>X_scale\<close> as
  the one built from \<open>x\<close>; these are the minimum and the range of the training rows; and the
  validation view is the validation rows normalised with exactly these two numbers.
\<close>

theorem normalization_leakage_free:
  assumes "split_indices perm gperm x ys p (Some seed) = Inr (tr, te)"
      and "length x' = length x"
      and "\<forall>i\<in>set tr. x' ! i = x ! i"
      and "MNIST1D_init perm gperm x ys train p seed = Inr d"
  shows "\<exists>d'. MNIST1D_init perm gperm x' ys train' p seed = Inr d'
           \<and> X_loc d' = X_loc d \<and> X_scale d' = X_scale d
           \<and> X_loc d = Min (set (concat (map (nth x) tr)))
           \<and> X_scale d = Max (set (concat (map (nth x) tr))) - Min (set (concat (map (nth x) tr)))
           \<and> (\<not> train' \<longrightarrow> self_X d' = normalise (map (nth x') te) (X_loc d) (X_scale d))"
proof -
  from assms(4) obtain tr0 te0 where
    s0: "split_indices perm gperm x ys p (Some seed) = Inr (tr0, te0)"
    and r0: "\<forall>i\<in>set tr0. i < length x" "\<forall>i\<in>set te0. i < length x"
    and ne0: "concat (map (nth x) tr0) \<noteq> []"
    and d: "d = \<lparr>is_training = train, X_loc = fst (tstats x tr0), X_scale = snd (tstats x tr0),
              self_X = normalise (map (nth x) (if train then tr0 else te0))
                         (fst (tstats x tr0)) (snd (tstats x tr0)),
              self_y = map (nth ys) (if train then tr0 else te0)\<rparr>"
    unfolding MNIST1D_init_Inr by blast
  have eq: "tr0 = tr" "te0 = te" using s0 assms(1) by simp_all
  have same: "map (nth x') tr = map (nth x) tr" using assms(3) by simp
  have st: "tstats x' tr = tstats x tr" unfolding tstats_def same ..
  have len: "length ys = length x" using split_indices_Inr[OF assms(1)] by simp
  have s': "split_indices perm gperm x' ys p (Some seed) = Inr (tr, te)"
    using assms(1) split_indices_length_only[of x' x ys ys perm gperm p seed] assms(2) by simp
  define d' where "d' = \<lparr>is_training = train', X_loc = fst (tstats x' tr), X_scale = snd (tstats x' tr),
              self_X = normalise (map (nth x') (if train' then tr else te))
                         (fst (tstats x' tr)) (snd (tstats x' tr)),
              self_y = map (nth ys) (if train' then tr else te)\<rparr>"
  have "MNIST1D_init perm gperm x' ys train' p seed = Inr d'"
    unfolding MNIST1D_init_Inr d'_def
    using s' r0 ne0 same unfolding eq assms(2) by (intro exI[of _ tr] exI[of _ te]) simp
  moreover have "X_loc d' = X_loc d" "X_scale d' = X_scale d"
    unfolding d'_def d eq st by simp_all
  moreover have "X_loc d = Min (set (concat (map (nth x) tr)))"
    "X_scale d = Max (set (concat (map (nth x) tr))) - Min (set (concat (map (nth x) tr)))"
    unfolding d eq tstats_def by simp_all
  moreover have "\<not> train' \<longrightarrow> self_X d' = normalise (map (nth x') te) (X_loc d) (X_scale d)"
    unfolding d'_def d eq st by simp
  ultimately show ?thesis by blast
qed

theorem normalization_leakage_free_witness:
  "\<exists>d'. MNIST1D_init (\<lambda>s n. rotate (nat s) [0..<n]) (\<lambda>n. [0..<n]) [[0,2],[4,6],[-700,800],[5,9]] [0,1,2,3] False (1/4) 42 = Inr d'
      \<and> X_loc d' = 0 \<and> X_scale d' = 9 \<and> self_X d' = [[Num (- 700 / 9), Num (800 / 9)]]"
proof -
  let ?P = "\<lambda>(s::int) n. rotate (nat s) [0..<n]"
  let ?G = "\<lambda>n::nat. [0..<n]"
  let ?x = "[[0,2],[4,6],[1,3],[5,9::real]]"
  let ?x' = "[[0,2],[4,6],[-700,800],[5,9::real]]"
  have h1: "split_indices ?P ?G ?x [0,1,2,3::int] (1/4) (Some 42) = Inr ([3,0,1],[2])" by code_simp
  have h2: "length ?x' = length ?x" by simp
  have h3: "\<forall>i\<in>set [3,0,1::nat]. ?x' ! i = ?x ! i" by simp
  have h4: "MNIST1D_init ?P ?G ?x [0,1,2,3] True (1/4) 42
    = Inr \<lparr>is_training = True, X_loc = 0, X_scale = 9,
           self_X = [[Num (5/9), Num 1], [Num 0, Num (2/9)], [Num (4/9), Num (6/9)]],
           self_y = [3,0,1]\<rparr>" by code_simp
  show ?thesis
    using normalization_leakage_free[OF h1 h2 h3 h4, of False]
    by (simp add: normalise_def np_divide_def)
qed

lemma constant_list_set: "xs \<noteq> [] \<Longrightarrow> \<forall>v\<in>set xs. v = c \<Longrightarrow> set xs = {c}"
  by (cases xs) auto

lemma normalise_constant_rows:
  "\<forall>v\<in>set (concat a). v = c \<Longrightarrow> \<forall>r\<in>set (normalise a c 0). \<forall>v\<in>set r. v = NaN"
  by (auto simp: normalise_def np_divide_def)

lemma normalise_zero_scale:
  "normalise a c 0 = map (map (\<lambda>v. if v = c then NaN else if c < v then PosInf else NegInf)) a"
  by (simp add: normalise_def np_divide_def)

text \<open>
  Claim C2, as amended. When every value of the training partition is the same number \<open>c\<close>,
  the constructor does not fail: it returns a dataset with \<open>X_loc = c\<close> and \<open>X_scale = 0\<close>;
  every normalised value of the training view is nan, and a value \<open>v\<close> of the validation view
  is nan, plus infinity or minus infinity as \<open>v\<close> is equal to, above or below \<open>c\<close>.
\<close>

theorem constant_training_data_not_rejected:
  assumes "split_indices perm gperm x ys p (Some seed) = Inr (tr, te)"
      and "\<forall>i\<in>set tr. i < length x" and "\<forall>i\<in>set te. i < length x"
      and "concat (map (nth x) tr) \<noteq> []"
      and "\<forall>v\<in>set (concat (map (nth x) tr)). v = c"
  shows "\<exists>d. MNIST1D_init perm gperm x ys train p seed = Inr d \<and> X_loc d = c \<and> X_scale d = 0
           \<and> (train \<longrightarrow> (\<forall>r\<in>set (self_X d). \<forall>v\<in>set r. v = NaN))
           \<and> (\<not> train \<longrightarrow> self_X d =
                 map (map (\<lambda>v. if v = c then NaN else if c < v then PosInf else NegInf))
                   (map (nth x) te))"
proof -
  have S: "set (concat (map (nth x) tr)) = {c}"
    by (rule constant_list_set[OF assms(4,5)])
  have st: "tstats x tr = (c, 0)" unfolding tstats_def S by simp
  define d where "d = \<lparr>is_training = train, X_loc = fst (tstats x tr), X_scale = snd (tstats x tr),
              self_X = normalise (map (nth x) (if train then tr else te))
                         (fst (tstats x tr)) (snd (tstats x tr)),
              self_y = map (nth ys) (if train then tr else te)\<rparr>"
  have init: "MNIST1D_init perm gperm x ys train p seed = Inr d"
    unfolding MNIST1D_init_Inr d_def using assms(1-4)
    by (intro exI[of _ tr] exI[of _ te]) (simp del: set_concat concat_eq_Nil_conv)
  have tr_nan: "\<forall>r\<in>set (self_X d). \<forall>v\<in>set r. v = NaN" if train
  proof -
    have "self_X d = normalise (map (nth x) tr) c 0" using that unfolding d_def st by simp
    thus ?thesis using normalise_constant_rows[OF assms(5)] by simp
  qed
  have val: "self_X d = map (map (\<lambda>v. if v = c then NaN else if c < v then PosInf else NegInf))
                   (map (nth x) te)" if "\<not> train"
  proof -
    have "self_X d = normalise (map (nth x) te) c 0" using that unfolding d_def st by simp
    thus ?thesis by (simp only: normalise_zero_scale)
  qed
  have "X_loc d = c" "X_scale d = 0" unfolding d_def st by simp_all
  with init tr_nan val show ?thesis by (intro exI[of _ d]) simp
qed

theorem constant_training_data_not_rejected_witness:
  "\<exists>d. MNIST1D_init (\<lambda>s n. rotate (nat s) [0..<n]) (\<lambda>n. [0..<n]) [[1,1],[1,1],[7,-3],[1,1]] [0,1,2,3] False (1/4) 42 = Inr d
       \<and> X_loc d = 1 \<and> X_scale d = 0 \<and> self_X d = [[PosInf, NegInf]]"
proof -
  let ?P = "\<lambda>(s::int) n. rotate (nat s) [0..<n]"
  let ?G = "\<lambda>n::nat. [0..<n]"
  let ?x = "[[1,1],[1,1],[7,-3],[1,1::real]]"
  have h1: "split_indices ?P ?G ?x [0,1,2,3::int] (1/4) (Some 42) = Inr ([3,0,1],[2])" by code_simp
  have h2: "\<forall>i\<in>set [3,0,1::nat]. i < length ?x" by simp
  have h3: "\<forall>i\<in>set [2::nat]. i < length ?x" by simp
  have h4: "concat (map (nth ?x) [3,0,1]) \<noteq> []" by simp
  have h5: "\<forall>v\<in>set (concat (map (nth ?x) [3,0,1])). v = 1" by simp
  show ?thesis
    using constant_training_data_not_rejected[OF h1 h2 h3 h4 h5, of False]
    by simp
qed

text \<open>The claim as stated fails: on a constant training partition the constructor returns.\<close>

theorem constant_training_data_counterexample:
  "MNIST1D_init (\<lambda>s n. rotate (nat s) [0..<n]) (\<lambda>n. [0..<n]) [[1,1],[1,1],[7,-3],[1,1]] [0,1,2,3] True (1/4) 42
   = Inr \<lparr>is_training = True, X_loc = 1, X_scale = 0,
          self_X = [[NaN, NaN], [NaN, NaN], [NaN, NaN]], self_y = [3, 0, 1]\<rparr>"
  by code_simp

text \<open>
  Claim C4 (split determinism). The constructor seeds its split with \<open>seed\<close>, so nothing of
  what the process-wide generator has drawn before reaches it: two calls with the same
  arguments in any two states \<open>g1\<close> and \<open>g2\<close> of that generator return the same dataset or
  fail alike; the dataset of one call consists of the rows at the training (or validation)
  indices that the split of the other call selects; and these indices depend on the sample
  set through its length only.
\<close>

theorem split_deterministic:
  "MNIST1D_init perm g1 x ys train p seed = MNIST1D_init perm g2 x ys train p seed
   \<and> (\<forall>d. MNIST1D_init perm g1 x ys train p seed = Inr d \<longrightarrow>
         (\<exists>tr te. split_indices perm g2 x ys p (Some seed) = Inr (tr, te)
            \<and> self_y d = map (nth ys) (if train then tr else te)
            \<and> self_X d = normalise (map (nth x) (if train then tr else te)) (X_loc d) (X_scale d)))
   \<and> (length x' = length x \<and> length ys' = length ys \<longrightarrow>
         split_indices perm g1 x' ys' p (Some seed) = split_indices perm g2 x ys p (Some seed))"
proof (intro conjI allI impI)
  show "MNIST1D_init perm g1 x ys train p seed = MNIST1D_init perm g2 x ys train p seed"
    by (rule MNIST1D_init_seeded)
next
  fix d
  assume "MNIST1D_init perm g1 x ys train p seed = Inr d"
  then obtain tr te where s: "split_indices perm g1 x ys p (Some seed) = Inr (tr, te)"
    and d: "d = \<lparr>is_training = train, X_loc = fst (tstats x tr), X_scale = snd (tstats x tr),
              self_X = normalise (map (nth x) (if train then tr else te))
                         (fst (tstats x tr)) (snd (tstats x tr)),
              self_y = map (nth ys) (if train then tr else te)\<rparr>"
    unfolding MNIST1D_init_Inr by blast
  have "split_indices perm g2 x ys p (Some seed) = Inr (tr, te)"
    using s by (simp only: split_indices_seeded[of perm g2 x ys p seed g1])
  then show "\<exists>tr te. split_indices perm g2 x ys p (Some seed) = Inr (tr, te)
            \<and> self_y d = map (nth ys) (if train then tr else te)
            \<and> self_X d = normalise (map (nth x) (if train then tr else te)) (X_loc d) (X_scale d)"
    unfolding d by (intro exI[of _ tr] exI[of _ te]) simp
next
  assume "length x' = length x \<and> length ys' = length ys"
  then have "split_indices perm g1 x' ys' p (Some seed) = split_indices perm g1 x ys p (Some seed)"
    by (intro split_indices_length_only) simp_all
  then show "split_indices perm g1 x' ys' p (Some seed) = split_indices perm g2 x ys p (Some seed)"
    by (simp only: split_indices_seeded[of perm g1 x ys p seed g2])
qed

theorem split_deterministic_witness:
  "MNIST1D_init (\<lambda>s n. rotate (nat s) [0..<n]) (\<lambda>n. [0..<n])
      [[0,2],[4,6],[1,3],[5,9]] [0,1,2,3] True (1/4) 42
   = MNIST1D_init (\<lambda>s n. rotate (nat s) [0..<n]) (\<lambda>n. rev [0..<n])
      [[0,2],[4,6],[1,3],[5,9]] [0,1,2,3] True (1/4) 42
   \<and> split_indices (\<lambda>s n. rotate (nat s) [0..<n]) (\<lambda>n. rev [0..<n])
        [[0,2],[4,6],[1,3],[5,9::real]] [0,1,2,3::int] (1/4) (Some 42) = Inr ([3,0,1],[2])
   \<and> split_indices (\<lambda>s n. rotate (nat s) [0..<n]) (\<lambda>n. [0..<n])
        [[9,9],[8,8],[7,7],[6,6::real]] [5,5,5,5::int] (1/4) (Some 42) = Inr ([3,0,1],[2])"
proof -
  let ?P = "\<lambda>(s::int) n. rotate (nat s) [0..<n]"
  let ?G1 = "\<lambda>n::nat. [0..<n]"
  let ?G2 = "\<lambda>n::nat. rev [0..<n]"
  let ?x = "[[0,2],[4,6],[1,3],[5,9::real]]"
  let ?x' = "[[9,9],[8,8],[7,7],[6,6::real]]"
  note t = split_deterministic[of ?P ?G1 ?x "[0,1,2,3]" True "1/4" 42 ?G2 ?x' "[5,5,5,5]"]
  have h: "length ?x' = length ?x \<and> length [5,5,5,5::int] = length [0,1,2,3::int]" by simp
  have i: "MNIST1D_init ?P ?G1 ?x [0,1,2,3] True (1/4) 42
    = Inr \<lparr>is_training = True, X_loc = 0, X_scale = 9,
           self_X = [[Num (5/9), Num 1], [Num 0, Num (2/9)], [Num (4/9), Num (6/9)]],
           self_y = [3,0,1]\<rparr>" by code_simp
  have v: "split_indices ?P ?G2 ?x [0,1,2,3::int] (1/4) (Some 42) = Inr ([3,0,1],[2])"
    by code_simp
  have a: "MNIST1D_init ?P ?G1 ?x [0,1,2,3] True (1/4) 42
           = MNIST1D_init ?P ?G2 ?x [0,1,2,3] True (1/4) 42"
    by (rule t[THEN conjunct1])
  have c: "split_indices ?P ?G1 ?x' [5,5,5,5::int] (1/4) (Some 42)
           = split_indices ?P ?G2 ?x [0,1,2,3::int] (1/4) (Some 42)"
    by (rule t[THEN conjunct2, THEN conjunct2, THEN mp, OF h])
  show ?thesis using a c v by simp
qed

subsection \<open>Indexing and the split\<close>

lemma take_one_drop: "k < length a \<Longrightarrow> take 1 (drop k a) = [a ! k]"
  by (simp add: take_Suc_conv_app_nth)

lemma slice_rows_single:
  assumes "0 \<le> i" "i < int (length a)"
  shows "slice_rows a i (i + 1) = [a ! nat i]"
proof -
  have "nat i < length a" using assms by linarith
  from take_one_drop[OF this] show ?thesis
    using assms by (simp add: slice_rows_def Let_def min_def)
qed

lemma slice_rows_negative:
  assumes "- int (length a) \<le> i" "i \<le> - 2"
  shows "slice_rows a i (i + 1) = [a ! nat (i + int (length a))]"
proof -
  define n where "n = int (length a)"
  have lo: "(if i < 0 then max (i + n) 0 else min i n) = i + n"
    using assms by (simp add: n_def)
  have hi: "(if i + 1 < 0 then max (i + 1 + n) 0 else min (i + 1) n) = i + 1 + n"
    using assms by (simp add: n_def)
  have "slice_rows a i (i + 1) = take (nat (i + 1 + n - (i + n))) (drop (nat (i + n)) a)"
    unfolding slice_rows_def Let_def n_def[symmetric] lo hi ..
  also have "\<dots> = take 1 (drop (nat (i + n)) a)" by simp
  also have "\<dots> = [a ! nat (i + n)]"
    using assms by (intro take_one_drop) (simp add: n_def)
  finally show ?thesis unfolding n_def .
qed

lemma mset_rotate_eq: "mset (rotate k xs) = mset xs"
proof -
  have "mset (rotate k xs) = mset (drop (k mod length xs) xs) + mset (take (k mod length xs) xs)"
    by (simp add: rotate_drop_take)
  also have "\<dots> = mset (take (k mod length xs) xs @ drop (k mod length xs) xs)"
    by (simp only: mset_append add.commute)
  finally show ?thesis by simp
qed

lemma index_item_cases:
  "index_item a i =
     (if 0 \<le> i \<and> i < int (length a) then Inr (a ! nat i)
      else if - int (length a) \<le> i \<and> i < 0 then Inr (a ! nat (i + int (length a)))
      else if 2 ^ 63 \<le> i \<and> i < 2 ^ 64 then Inl OverflowError
      else Inl IndexError)"
  by (auto simp: index_item_def Let_def)

lemma MNIST1D_init_lengths:
  assumes "MNIST1D_init perm gperm x ys train p seed = Inr d"
  shows "length (self_y d) = length (self_X d)"
  using assms unfolding MNIST1D_init_Inr by (auto simp: normalise_def)

lemma MNIST1D_init_row_length:
  assumes "MNIST1D_init perm gperm x ys train p seed = Inr d" and "\<forall>r\<in>set x. length r = L"
  shows "\<forall>r\<in>set (self_X d). length r = L"
proof -
  from assms(1) obtain idx where idx: "\<forall>i\<in>set idx. i < length x"
    and X: "self_X d = normalise (map (nth x) idx) (X_loc d) (X_scale d)"
    unfolding MNIST1D_init_Inr by (cases train) auto
  have "\<forall>r\<in>set (map (nth x) idx). length r = L" using idx assms(2) by simp
  thus ?thesis unfolding X normalise_def by simp
qed

text \<open>
  Claim C3, as amended. For a dataset of length \<open>n\<close>, \<open>getitem\<close> fails at every index
  \<open>i \<ge> n\<close> and every index \<open>i < - n\<close>: with OverflowError when \<open>2^63 \<le> i < 2^64\<close>, with
  IndexError otherwise; at an index from \<open>- n\<close> to \<open>- 2\<close> it returns the sample at position
  \<open>n + i\<close>.
\<close>

theorem getitem_out_of_range:
  assumes "length (self_y d) = length (self_X d)"
  shows "(int (len_MNIST1D d) \<le> i \<or> i < - int (len_MNIST1D d) \<longrightarrow>
            getitem d i = Inl (if 2 ^ 63 \<le> i \<and> i < 2 ^ 64 then OverflowError else IndexError))
       \<and> (- int (len_MNIST1D d) \<le> i \<and> i \<le> - 2 \<longrightarrow>
            getitem d i = Inr ((float32, [self_X d ! nat (i + int (len_MNIST1D d))]),
                               (int64, self_y d ! nat (i + int (len_MNIST1D d)))))"
proof (intro conjI impI)
  assume "int (len_MNIST1D d) \<le> i \<or> i < - int (len_MNIST1D d)"
  then show "getitem d i = Inl (if 2 ^ 63 \<le> i \<and> i < 2 ^ 64 then OverflowError else IndexError)"
    unfolding getitem_def len_MNIST1D_def index_item_cases assms by (auto simp: Let_def)
next
  assume a: "- int (len_MNIST1D d) \<le> i \<and> i \<le> - 2"
  hence "slice_rows (self_X d) i (i + 1) = [self_X d ! nat (i + int (length (self_X d)))]"
    unfolding len_MNIST1D_def by (intro slice_rows_negative) simp_all
  with a show "getitem d i = Inr ((float32, [self_X d ! nat (i + int (len_MNIST1D d))]),
                               (int64, self_y d ! nat (i + int (len_MNIST1D d))))"
    unfolding getitem_def len_MNIST1D_def index_item_cases assms by (simp add: Let_def)
qed

theorem getitem_out_of_range_witness:
  "getitem \<lparr>is_training = True, X_loc = 0, X_scale = 9,
            self_X = [[Num (5/9), Num 1], [Num 0, Num (2/9)], [Num (4/9), Num (6/9)]],
            self_y = [3, 0, 1]\<rparr> 3 = Inl IndexError
   \<and> getitem \<lparr>is_training = True, X_loc = 0, X_scale = 9,
            self_X = [[Num (5/9), Num 1], [Num 0, Num (2/9)], [Num (4/9), Num (6/9)]],
            self_y = [3, 0, 1]\<rparr> (2 ^ 63) = Inl OverflowError
   \<and> getitem \<lparr>is_training = True, X_loc = 0, X_scale = 9,
            self_X = [[Num (5/9), Num 1], [Num 0, Num (2/9)], [Num (4/9), Num (6/9)]],
            self_y = [3, 0, 1]\<rparr> (2 ^ 64) = Inl IndexError
   \<and> getitem \<lparr>is_training = True, X_loc = 0, X_scale = 9,
            self_X = [[Num (5/9), Num 1], [Num 0, Num (2/9)], [Num (4/9), Num (6/9)]],
            self_y = [3, 0, 1]\<rparr> (- 4) = Inl IndexError
   \<and> getitem \<lparr>is_training = True, X_loc = 0, X_scale = 9,
            self_X = [[Num (5/9), Num 1], [Num 0, Num (2/9)], [Num (4/9), Num (6/9)]],
            self_y = [3, 0, 1]\<rparr> (- 3) = Inr ((float32, [[Num (5/9), Num 1]]), (int64, 3))"
proof -
  let ?d = "\<lparr>is_training = True, X_loc = 0, X_scale = 9,
            self_X = [[Num (5/9), Num 1], [Num 0, Num (2/9)], [Num (4/9), Num (6/9)]],
            self_y = [3, 0, 1]\<rparr>"
  have h: "length (self_y ?d) = length (self_X ?d)" by simp
  show ?thesis
    using getitem_out_of_range[OF h, of 3] getitem_out_of_range[OF h, of "2 ^ 63"]
      getitem_out_of_range[OF h, of "2 ^ 64"] getitem_out_of_range[OF h, of "- 4"]
      getitem_out_of_range[OF h, of "- 3"]
    by (simp add: len_MNIST1D_def)
qed

text \<open>The claim as stated fails: a negative index within \<open>- n\<close> returns a pair.\<close>

theorem getitem_negative_index_counterexample:
  "getitem \<lparr>is_training = True, X_loc = 0, X_scale = 9,
            self_X = [[Num (5/9), Num 1], [Num 0, Num (2/9)], [Num (4/9), Num (6/9)]],
            self_y = [3, 0, 1]\<rparr> (- 2) = Inr ((float32, [[Num 0, Num (2/9)]]), (int64, 0))"
  by (simp add: getitem_def slice_rows_def index_item_def)

text \<open>At index \<open>- 1\<close> the slice \<^verbatim>\<open>[-1:0]\<close> is empty while the label is the last one.\<close>

lemma getitem_last_negative:
  "getitem \<lparr>is_training = True, X_loc = 0, X_scale = 9,
            self_X = [[Num (5/9), Num 1], [Num 0, Num (2/9)], [Num (4/9), Num (6/9)]],
            self_y = [3, 0, 1]\<rparr> (- 1) = Inr ((float32, []), (int64, 1))"
  by (simp add: getitem_def slice_rows_def index_item_def)

lemma getitem_nonnegative:
  assumes "length (self_y d) = length (self_X d)" "0 \<le> i" "i < int (len_MNIST1D d)"
  shows "getitem d i = Inr ((float32, [self_X d ! nat i]), (int64, self_y d ! nat i))"
  using assms slice_rows_single[of i "self_X d"]
  unfolding getitem_def len_MNIST1D_def index_item_cases by (simp add: Let_def)

lemma fetch_in_range:
  assumes "length (self_y d) = length (self_X d)"
      and "\<forall>i\<in>set idx. 0 \<le> i \<and> i < int (len_MNIST1D d)"
  shows "fetch d idx = Inr (map (\<lambda>i. ((float32, [self_X d ! nat i]), (int64, self_y d ! nat i))) idx)"
  using assms(2)
proof (induction idx)
  case Nil
  show ?case by simp
next
  case (Cons i idx)
  have "getitem d i = Inr ((float32, [self_X d ! nat i]), (int64, self_y d ! nat i))"
    using Cons.prems by (intro getitem_nonnegative[OF assms(1)]) simp_all
  moreover have "fetch d idx = Inr (map (\<lambda>i. ((float32, [self_X d ! nat i]), (int64, self_y d ! nat i))) idx)"
    using Cons by simp
  ultimately show ?case by simp
qed

text \<open>
  Claim C10 (channel dimension). For a dataset built by the constructor from rows of length
  \<open>L\<close>, \<open>getitem\<close> at an in-range index \<open>i\<close> returns the float32 tensor whose only row is
  row \<open>i\<close>, of shape \<open>(1, L)\<close>, and the int64 label \<open>i\<close>; fetching a list of in-range
  indices gives one such sample per index, so a batch has shape \<open>(batch, 1, L)\<close>.
\<close>

theorem getitem_channel_dimension:
  assumes "MNIST1D_init perm gperm x ys train p seed = Inr d"
      and "\<forall>r\<in>set x. length r = L"
      and "\<forall>i\<in>set idx. 0 \<le> i \<and> i < int (len_MNIST1D d)"
  shows "fetch d idx = Inr (map (\<lambda>i. ((float32, [self_X d ! nat i]), (int64, self_y d ! nat i))) idx)
         \<and> (\<forall>i\<in>set idx. getitem d i = Inr ((float32, [self_X d ! nat i]), (int64, self_y d ! nat i))
                           \<and> shape [self_X d ! nat i] = [1, L])"
proof (intro conjI ballI)
  note len = MNIST1D_init_lengths[OF assms(1)]
  show "fetch d idx = Inr (map (\<lambda>i. ((float32, [self_X d ! nat i]), (int64, self_y d ! nat i))) idx)"
    by (rule fetch_in_range[OF len assms(3)])
  fix i assume i: "i \<in> set idx"
  hence r: "0 \<le> i" "i < int (len_MNIST1D d)" using assms(3) by simp_all
  show "getitem d i = Inr ((float32, [self_X d ! nat i]), (int64, self_y d ! nat i))"
    by (rule getitem_nonnegative[OF len r])
  have "nat i < length (self_X d)" using r unfolding len_MNIST1D_def by linarith
  hence "self_X d ! nat i \<in> set (self_X d)" by simp
  hence "length (self_X d ! nat i) = L" using MNIST1D_init_row_length[OF assms(1,2)] by blast
  thus "shape [self_X d ! nat i] = [1, L]" by (simp add: shape_def)
qed

theorem getitem_channel_dimension_witness:
  "fetch \<lparr>is_training = True, X_loc = 0, X_scale = 9,
           self_X = [[Num (5/9), Num 1], [Num 0, Num (2/9)], [Num (4/9), Num (6/9)]],
           self_y = [3, 0, 1]\<rparr> [2, 0]
     = Inr [((float32, [[Num (4/9), Num (6/9)]]), (int64, 1)),
            ((float32, [[Num (5/9), Num 1]]), (int64, 3))]
   \<and> shape [[Num (4/9), Num (6/9)]] = [1, 2]"
proof -
  let ?P = "\<lambda>(s::int) n. rotate (nat s) [0..<n]"
  let ?G = "\<lambda>n::nat. [0..<n]"
  let ?d = "\<lparr>is_training = True, X_loc = 0, X_scale = 9,
           self_X = [[Num (5/9), Num 1], [Num 0, Num (2/9)], [Num (4/9), Num (6/9)]],
           self_y = [3, 0, 1]\<rparr>"
  have h1: "MNIST1D_init ?P ?G [[0,2],[4,6],[1,3],[5,9]] [0,1,2,3] True (1/4) 42 = Inr ?d"
    by code_simp
  have h2: "\<forall>r\<in>set [[0,2],[4,6],[1,3],[5,9::real]]. length r = 2" by simp
  have h3: "\<forall>i\<in>set [2, 0]. 0 \<le> i \<and> i < int (len_MNIST1D ?d)" by (simp add: len_MNIST1D_def)
  show ?thesis using getitem_channel_dimension[OF h1 h2 h3] by simp
qed



section \<open>Properties of the training loops\<close>

subsection \<open>The sums of an epoch\<close>

text \<open>The passes add up the losses and accuracies of the batches, so a sum divided by the
  number of batches is the mean of the epoch.\<close>

lemma train_pass_snoc:
  "train_pass C (batches @ [b]) s =
     (case train_pass C batches s of (s1, loss_sum, acc_sum) \<Rightarrow>
        case train_batch C s1 b of (s2, l, a) \<Rightarrow> (s2, loss_sum + l, acc_sum + a))"
  by (simp add: train_pass_def split: prod.splits)

lemma train_pass_Nil: "train_pass C [] s = (s, 0, 0)"
  by (simp add: train_pass_def)

lemma eval_pass_sums:
  "eval_pass C batches s =
     (sum_list (map (\<lambda>b. fst (eval_batch C s b)) batches),
      sum_list (map (\<lambda>b. snd (eval_batch C s b)) batches))"
proof -
  have "fold (\<lambda>b (loss_sum, acc_sum).
             case eval_batch C s b of (l, a) \<Rightarrow> (loss_sum + l, acc_sum + a)) batches (x, y)
        = (x + sum_list (map (\<lambda>b. fst (eval_batch C s b)) batches),
           y + sum_list (map (\<lambda>b. snd (eval_batch C s b)) batches))" for x y
    by (induction batches arbitrary: x y) (simp_all add: case_prod_beta algebra_simps)
  then show ?thesis unfolding eval_pass_def by simp
qed

subsection \<open>The dict of metric lists\<close>

lemma dict_get_touch [simp]: "dict_get (defaultdict_getitem k d) k' = dict_get d k'"
  by (cases "map_of d k"; cases "map_of d k'")
     (simp_all add: dict_get_def defaultdict_getitem_def map_add_def)

lemma keys_touch:
  "map fst (defaultdict_getitem k d) = (if k \<in> set (map fst d) then map fst d else map fst d @ [k])"
proof (cases "map_of d k")
  case None
  then have "k \<notin> set (map fst d)" by (simp add: map_of_eq_None_iff)
  then show ?thesis using None by (simp add: defaultdict_getitem_def)
next
  case (Some vs)
  then have "k \<in> set (map fst d)" by (metis map_of_eq_None_iff option.distinct(1) set_map)
  then show ?thesis using Some by (simp add: defaultdict_getitem_def)
qed

lemma dict_get_list_append:
  "dict_get (list_append k v d) k' = (if k' = k then dict_get d k @ [v] else dict_get d k')"
  by (simp add: dict_get_def list_append_def update_conv')

lemma keys_list_append:
  "map fst (list_append k v d) = (if k \<in> set (map fst d) then map fst d else map fst d @ [k])"
  by (simp add: list_append_def update_keys)

lemma dict_get_dict_append:
  "dict_get (dict_append k v d) k' = (if k' = k then dict_get d k @ [v] else dict_get d k')"
  by (simp add: dict_append_def dict_get_list_append)

lemma keys_dict_append:
  "map fst (dict_append k v d) = (if k \<in> set (map fst d) then map fst d else map fst d @ [k])"
  by (simp add: dict_append_def keys_list_append keys_touch)

lemma log_mean_ok:
  "n \<noteq> 0 \<Longrightarrow> log_mean k t n st = Inr (st\<lparr>logs := dict_append k (t / real n) (logs st)\<rparr>)"
  by (simp add: log_mean_def float_div_def dict_append_def Let_def)

lemma log_mean_zero:
  "log_mean k t 0 st = Inl (ZeroDivisionError, st\<lparr>logs := defaultdict_getitem k (logs st)\<rparr>)"
  by (simp add: log_mean_def float_div_def Let_def)

lemma train_classifier_epoch_ok:
  assumes "dl_len tr \<noteq> 0" "dl_len te \<noteq> 0" "L \<noteq> 0"
  shows "train_classifier_epoch C tr te M L e st =
           Inr (st\<lparr>world := fst (epoch_effect C tr te (world st, logs st)),
                   logs := snd (epoch_effect C tr te (world st, logs st)),
                   printed := printed st @
                     (if (int e + 1) mod L = 0 \<or> int e + 1 = M then [(e + 1, M)] else [])\<rparr>)"
proof -
  obtain s tl ta el ea where p: "epoch_passes C tr te (world st) = (s, tl, ta, el, ea)"
    by (metis prod_cases5)
  have ee: "epoch_effect C tr te (world st, logs st) =
      (s, dict_append ''test_acc'' (ea / real (dl_len te))
            (dict_append ''train_acc'' (ta / real (dl_len tr))
            (dict_append ''test_loss'' (el / real (dl_len te))
            (dict_append ''train_loss'' (tl / real (dl_len tr)) (logs st)))))"
    by (simp add: epoch_effect_def p)
  show ?thesis
    unfolding train_classifier_epoch_def p ee
    using assms by (simp add: log_mean_ok)
qed

lemma funpow_Suc_apply: "(f ^^ Suc n) x = (f ^^ n) (f x)"
  by (simp add: funpow_swap1)

lemma run_train_classifier_epochs_ok:
  assumes "dl_len tr \<noteq> 0" "dl_len te \<noteq> 0" "L \<noteq> 0"
  shows "run_epochs (train_classifier_epoch C tr te M L) es st =
           Inr (st\<lparr>world := fst ((epoch_effect C tr te ^^ length es) (world st, logs st)),
                   logs := snd ((epoch_effect C tr te ^^ length es) (world st, logs st)),
                   printed := printed st @
                     map (\<lambda>e. (e + 1, M)) (filter (\<lambda>e. (int e + 1) mod L = 0 \<or> int e + 1 = M) es)\<rparr>)"
proof (induction es arbitrary: st)
  case Nil
  show ?case by simp
next
  case (Cons e es)
  let ?body = "train_classifier_epoch C tr te M L"
  let ?st1 = "st\<lparr>world := fst (epoch_effect C tr te (world st, logs st)),
                   logs := snd (epoch_effect C tr te (world st, logs st)),
                   printed := printed st @
                     (if (int e + 1) mod L = 0 \<or> int e + 1 = M then [(e + 1, M)] else [])\<rparr>"
  have "run_epochs ?body (e # es) st = run_epochs ?body es ?st1"
    by (simp only: run_epochs.simps train_classifier_epoch_ok[OF assms, of C M e st]
          and_then_simps)
  also note Cons.IH[of ?st1]
  finally show ?case by (simp add: funpow_Suc_apply del: funpow.simps)
qed

lemma epoch_effect_get:
  "\<exists>m. \<forall>d. dict_get (snd (epoch_effect C tr te (s, d))) k =
     (if k \<in> {''train_loss'', ''test_loss'', ''train_acc'', ''test_acc''} then dict_get d k @ [m]
      else dict_get d k)"
proof -
  obtain s' tl ta el ea where p: "epoch_passes C tr te s = (s', tl, ta, el, ea)"
    by (metis prod_cases5)
  have ee: "epoch_effect C tr te (s, d) =
      (s', dict_append ''test_acc'' (ea / real (dl_len te))
            (dict_append ''train_acc'' (ta / real (dl_len tr))
            (dict_append ''test_loss'' (el / real (dl_len te))
            (dict_append ''train_loss'' (tl / real (dl_len tr)) d))))" for d
    by (simp add: epoch_effect_def p)
  show ?thesis
    unfolding ee
    by (cases "k = ''train_loss''"; cases "k = ''test_loss''"; cases "k = ''train_acc''";
        cases "k = ''test_acc''") (simp_all add: dict_get_dict_append)
qed

lemma epoch_effect_fst: "fst (epoch_effect C tr te (s, d)) = fst (epoch_passes C tr te s)"
  unfolding epoch_effect_def by (cases "epoch_passes C tr te s") simp

lemma epoch_effect_funpow_get:
  "\<exists>vs. length vs = n \<and> (\<forall>d. dict_get (snd ((epoch_effect C tr te ^^ n) (s, d))) k =
     (if k \<in> {''train_loss'', ''test_loss'', ''train_acc'', ''test_acc''} then dict_get d k @ vs
      else dict_get d k))"
proof (induction n arbitrary: s)
  case 0
  show ?case by simp
next
  case (Suc n)
  obtain m where m: "\<And>d. dict_get (snd (epoch_effect C tr te (s, d))) k =
     (if k \<in> {''train_loss'', ''test_loss'', ''train_acc'', ''test_acc''} then dict_get d k @ [m]
      else dict_get d k)" using epoch_effect_get[of C tr te s k] by blast
  define s' where "s' = fst (epoch_passes C tr te s)"
  have step: "epoch_effect C tr te (s, d) = (s', snd (epoch_effect C tr te (s, d)))" for d
    by (simp add: prod_eq_iff s'_def epoch_effect_fst)
  from Suc[of s'] obtain vs where vs: "length vs = n"
    "\<And>d. dict_get (snd ((epoch_effect C tr te ^^ n) (s', d))) k =
     (if k \<in> {''train_loss'', ''test_loss'', ''train_acc'', ''test_acc''} then dict_get d k @ vs
      else dict_get d k)" by blast
  show ?case
  proof (intro exI[of _ "m # vs"] conjI allI)
    show "length (m # vs) = Suc n" using vs(1) by simp
    fix d
    have "(epoch_effect C tr te ^^ Suc n) (s, d)
          = (epoch_effect C tr te ^^ n) (s', snd (epoch_effect C tr te (s, d)))"
      unfolding funpow_Suc_apply using step[of d] by simp
    then show "dict_get (snd ((epoch_effect C tr te ^^ Suc n) (s, d))) k =
      (if k \<in> {''train_loss'', ''test_loss'', ''train_acc'', ''test_acc''} then dict_get d k @ m # vs
       else dict_get d k)"
      by (simp only: vs(2) m) simp
  qed
qed

subsection \<open>Runs of \<^verbatim>\<open>train_classifier\<close>\<close>

lemma train_classifier_ok:
  assumes "dl_len tr \<noteq> 0" "dl_len te \<noteq> 0" "L \<noteq> 0"
  shows "train_classifier C tr te M L st =
           Inr (st\<lparr>world := fst ((epoch_effect C tr te ^^ nat M) (world st, logs st)),
                   logs := snd ((epoch_effect C tr te ^^ nat M) (world st, logs st)),
                   printed := printed st @
                     map (\<lambda>e. (e + 1, M))
                       (filter (\<lambda>e. (int e + 1) mod L = 0 \<or> int e + 1 = M) [0..<nat M])\<rparr>)"
  unfolding train_classifier_def run_train_classifier_epochs_ok[OF assms] by simp

lemma first_epoch: "1 \<le> (M::int) \<Longrightarrow> [0..<nat M] = 0 # [1..<nat M]"
  by (simp add: upt_conv_Cons)







subsection \<open>The training cell\<close>

lemma tensor_setitem_ok: "idx < length t \<Longrightarrow> tensor_setitem t idx v = Inr (t[idx := v])"
  by (simp add: tensor_setitem_def)

lemma enumerate_train_ok:
  assumes "idx + length bs \<le> length t_loss" "length t_acc = length t_loss"
  shows "\<exists>s' t_loss' t_acc'. enumerate_train C idx bs (s, t_loss, t_acc) = Inr (s', t_loss', t_acc')
           \<and> length t_loss' = length t_loss \<and> length t_acc' = length t_loss"
  using assms
proof (induction bs arbitrary: idx s t_loss t_acc)
  case Nil
  then show ?case by simp
next
  case (Cons b bs)
  obtain s' l a where tb: "train_batch C s b = (s', l, a)" by (metis prod_cases3)
  have i: "idx < length t_loss" "idx < length t_acc" using Cons.prems by simp_all
  have step: "enumerate_train C idx (b # bs) (s, t_loss, t_acc)
        = enumerate_train C (Suc idx) bs (s', t_loss[idx := l], t_acc[idx := a])"
    by (simp add: tb tensor_setitem_ok i)
  have "Suc idx + length bs \<le> length (t_loss[idx := l])"
    "length (t_acc[idx := a]) = length (t_loss[idx := l])"
    using Cons.prems by simp_all
  from Cons.IH[OF this, of s'] show ?case unfolding step by simp
qed

lemma enumerate_validation_ok:
  assumes "idx + length bs \<le> length v_loss" "length v_acc = length v_loss"
  shows "\<exists>v_loss' v_acc'. enumerate_validation C s idx bs (v_loss, v_acc) = Inr (v_loss', v_acc')
           \<and> length v_loss' = length v_loss \<and> length v_acc' = length v_loss"
  using assms
proof (induction bs arbitrary: idx v_loss v_acc)
  case Nil
  then show ?case by simp
next
  case (Cons b bs)
  obtain l a where eb: "eval_batch C s b = (l, a)" by (metis prod.exhaust)
  have i: "idx < length v_loss" "idx < length v_acc" using Cons.prems by simp_all
  have step: "enumerate_validation C s idx (b # bs) (v_loss, v_acc)
        = enumerate_validation C s (Suc idx) bs (v_loss[idx := l], v_acc[idx := a])"
    by (simp add: eb tensor_setitem_ok i)
  have "Suc idx + length bs \<le> length (v_loss[idx := l])"
    "length (v_acc[idx := a]) = length (v_loss[idx := l])"
    using Cons.prems by simp_all
  from Cons.IH[OF this] show ?case unfolding step by simp
qed

lemma training_cell_epoch_ok:
  assumes wf_tr: "\<And>s. length (fst (dl_iter tr s)) \<le> dl_len tr"
      and wf_va: "\<And>s. length (fst (dl_iter va s)) \<le> dl_len va"
      and L: "L \<noteq> 0"
      and inv: "cell_inv tr va st"
  shows "\<exists>st' m1 m2 m3 m4. training_cell_epoch C tr va M L e st = Inr st' \<and> cell_inv tr va st'
           \<and> cell_printed st' = cell_printed st @
                (if int e mod L = 0 \<or> int e + 1 = M then [(e + 1, M)] else [])
           \<and> results st' = list_append ''validation_acc'' m4 (list_append ''validation_losses'' m3
                 (list_append ''train_acc'' m2 (list_append ''train_losses'' m1 (results st))))
           \<and> (\<exists>t_loss t_acc v_loss v_acc.
                 results st' = fold (\<lambda>(k, m). list_append k m)
                                 (cell_appends t_loss t_acc v_loss v_acc) (results st)
               \<and> m1 = tensor_mean t_loss \<and> m2 = tensor_mean t_acc
               \<and> m3 = tensor_mean v_loss \<and> m4 = tensor_mean v_acc)"
proof -
  obtain tbs s1 where it: "dl_iter tr (model_train C (cell_world st)) = (tbs, s1)"
    by (metis prod.exhaust)
  have ltbs: "0 + length tbs \<le> length (train_loss st)"
    using wf_tr[of "model_train C (cell_world st)"] inv unfolding it cell_inv_def by simp
  have la: "length (train_acc st) = length (train_loss st)" using inv unfolding cell_inv_def by simp
  from enumerate_train_ok[OF ltbs la, of C s1] obtain s2 t_loss t_acc where
    et: "enumerate_train C 0 tbs (s1, train_loss st, train_acc st) = Inr (s2, t_loss, t_acc)"
    and lt: "length t_loss = length (train_loss st)" "length t_acc = length (train_loss st)"
    by blast
  obtain vbs s3 where iv: "dl_iter va (model_eval C s2) = (vbs, s3)"
    by (metis prod.exhaust)
  have lvbs: "0 + length vbs \<le> length (validation_loss st)"
    using wf_va[of "model_eval C s2"] inv unfolding iv cell_inv_def by simp
  have lva: "length (validation_acc st) = length (validation_loss st)"
    using inv unfolding cell_inv_def by simp
  from enumerate_validation_ok[OF lvbs lva, of C s3] obtain v_loss v_acc where
    ev: "enumerate_validation C s3 0 vbs (validation_loss st, validation_acc st) = Inr (v_loss, v_acc)"
    and lv: "length v_loss = length (validation_loss st)" "length v_acc = length (validation_loss st)"
    by blast
  let ?r = "list_append ''validation_acc'' (tensor_mean v_acc)
             (list_append ''validation_losses'' (tensor_mean v_loss)
               (list_append ''train_acc'' (tensor_mean t_acc)
                 (list_append ''train_losses'' (tensor_mean t_loss) (results st))))"
  let ?st' = "st\<lparr>cell_world := s3, results := ?r, train_loss := t_loss, train_acc := t_acc,
                  validation_loss := v_loss, validation_acc := v_acc,
                  cell_printed := cell_printed st @
                    (if int e mod L = 0 \<or> int e + 1 = M then [(e + 1, M)] else [])\<rparr>"
  have run: "training_cell_epoch C tr va M L e st = Inr ?st'"
    unfolding training_cell_epoch_def it using L by (simp add: et iv ev Let_def cell_appends_def)
  have fo: "?r = fold (\<lambda>(k, m). list_append k m) (cell_appends t_loss t_acc v_loss v_acc) (results st)"
    by (simp add: cell_appends_def)
  have "cell_inv tr va ?st'" using inv lt lv unfolding cell_inv_def by simp
  moreover have "\<exists>t_loss' t_acc' v_loss' v_acc'.
                 ?r = fold (\<lambda>(k, m). list_append k m)
                                 (cell_appends t_loss' t_acc' v_loss' v_acc') (results st)
               \<and> tensor_mean t_loss = tensor_mean t_loss' \<and> tensor_mean t_acc = tensor_mean t_acc'
               \<and> tensor_mean v_loss = tensor_mean v_loss' \<and> tensor_mean v_acc = tensor_mean v_acc'"
    using fo by blast
  ultimately show ?thesis using run
    by (intro exI[of _ ?st'] exI[of _ "tensor_mean t_loss"] exI[of _ "tensor_mean t_acc"]
          exI[of _ "tensor_mean v_loss"] exI[of _ "tensor_mean v_acc"]) simp
qed

lemma cell_results_get:
  "dict_get (list_append ''validation_acc'' m4 (list_append ''validation_losses'' m3
       (list_append ''train_acc'' m2 (list_append ''train_losses'' m1 d)))) k =
   (if k = ''train_losses'' then dict_get d k @ [m1]
    else if k = ''train_acc'' then dict_get d k @ [m2]
    else if k = ''validation_losses'' then dict_get d k @ [m3]
    else if k = ''validation_acc'' then dict_get d k @ [m4]
    else dict_get d k)"
  by (simp add: dict_get_list_append)

lemma run_training_cell_epochs_ok:
  assumes wf_tr: "\<And>s. length (fst (dl_iter tr s)) \<le> dl_len tr"
      and wf_va: "\<And>s. length (fst (dl_iter va s)) \<le> dl_len va"
      and L: "L \<noteq> 0"
      and inv: "cell_inv tr va st"
  shows "\<exists>st'. run_epochs (training_cell_epoch C tr va M L) es st = Inr st' \<and> cell_inv tr va st'
           \<and> cell_printed st' = cell_printed st @
                map (\<lambda>e. (e + 1, M)) (filter (\<lambda>e. int e mod L = 0 \<or> int e + 1 = M) es)
           \<and> (\<forall>k\<in>{''train_losses'', ''train_acc'', ''validation_losses'', ''validation_acc''}.
                \<exists>vs. length vs = length es \<and> dict_get (results st') k = dict_get (results st) k @ vs)"
  using inv
proof (induction es arbitrary: st)
  case Nil
  then show ?case by simp
next
  case (Cons e es)
  let ?body = "training_cell_epoch C tr va M L"
  from training_cell_epoch_ok[OF wf_tr wf_va L Cons.prems, of C M e]
  obtain st1 m1 m2 m3 m4 where
    b: "?body e st = Inr st1" and i1: "cell_inv tr va st1"
    and p1: "cell_printed st1 = cell_printed st @
                (if int e mod L = 0 \<or> int e + 1 = M then [(e + 1, M)] else [])"
    and r1: "results st1 = list_append ''validation_acc'' m4 (list_append ''validation_losses'' m3
                 (list_append ''train_acc'' m2 (list_append ''train_losses'' m1 (results st))))"
    by blast
  from Cons.IH[OF i1] obtain st' where
    r: "run_epochs ?body es st1 = Inr st'" and i': "cell_inv tr va st'"
    and p': "cell_printed st' = cell_printed st1 @
                map (\<lambda>e. (e + 1, M)) (filter (\<lambda>e. int e mod L = 0 \<or> int e + 1 = M) es)"
    and g': "\<forall>k\<in>{''train_losses'', ''train_acc'', ''validation_losses'', ''validation_acc''}.
                \<exists>vs. length vs = length es \<and> dict_get (results st') k = dict_get (results st1) k @ vs"
    by blast
  have run: "run_epochs ?body (e # es) st = Inr st'" by (simp add: b r)
  have pr: "cell_printed st' = cell_printed st @
                map (\<lambda>e. (e + 1, M)) (filter (\<lambda>e. int e mod L = 0 \<or> int e + 1 = M) (e # es))"
    unfolding p' p1 by simp
  have g: "\<exists>vs. length vs = length (e # es) \<and> dict_get (results st') k = dict_get (results st) k @ vs"
    if k: "k \<in> {''train_losses'', ''train_acc'', ''validation_losses'', ''validation_acc''}" for k
  proof -
    from g' k obtain vs where vs: "length vs = length es"
      "dict_get (results st') k = dict_get (results st1) k @ vs" by blast
    from k obtain m where m: "dict_get (results st1) k = dict_get (results st) k @ [m]"
      unfolding r1 cell_results_get by auto
    show ?thesis using vs m by (intro exI[of _ "m # vs"]) simp
  qed
  show ?case using run i' pr g by (intro exI[of _ st']) blast
qed

lemma training_cell_ok:
  assumes wf_tr: "\<And>s. length (fst (dl_iter tr s)) \<le> dl_len tr"
      and wf_va: "\<And>s. length (fst (dl_iter va s)) \<le> dl_len va"
      and L: "L \<noteq> 0"
  shows "\<exists>st'. training_cell C tr va M L s = Inr st'
           \<and> cell_printed st' =
                map (\<lambda>e. (e + 1, M)) (filter (\<lambda>e. int e mod L = 0 \<or> int e + 1 = M) [0..<nat M])
           \<and> (\<forall>k\<in>{''train_losses'', ''train_acc'', ''validation_losses'', ''validation_acc''}.
                length (dict_get (results st') k) = nat M)"
proof -
  let ?st0 = "\<lparr>cell_world = s,
        results = [(''train_losses'', []), (''validation_losses'', []),
                   (''train_acc'', []), (''validation_acc'', [])],
        train_loss = replicate (dl_len tr) 0,
        train_acc = replicate (dl_len tr) 0,
        validation_loss = replicate (dl_len va) 0,
        validation_acc = replicate (dl_len va) 0,
        cell_printed = []\<rparr>"
  have inv: "cell_inv tr va ?st0" by (simp add: cell_inv_def)
  from run_training_cell_epochs_ok[OF wf_tr wf_va L inv, of C M "[0..<nat M]"]
  obtain st' where r: "run_epochs (training_cell_epoch C tr va M L) [0..<nat M] ?st0 = Inr st'"
    and p: "cell_printed st' = cell_printed ?st0 @
                map (\<lambda>e. (e + 1, M)) (filter (\<lambda>e. int e mod L = 0 \<or> int e + 1 = M) [0..<nat M])"
    and g: "\<forall>k\<in>{''train_losses'', ''train_acc'', ''validation_losses'', ''validation_acc''}.
                \<exists>vs. length vs = length [0..<nat M] \<and> dict_get (results st') k = dict_get (results ?st0) k @ vs"
    by blast
  have "length (dict_get (results st') k) = nat M"
    if "k \<in> {''train_losses'', ''train_acc'', ''validation_losses'', ''validation_acc''}" for k
    using g that by (auto simp: dict_get_def)
  with r p show ?thesis unfolding training_cell_def by (intro exI[of _ st']) simp
qed







lemma train_classifier_epoch_appends:
  assumes "dl_len tr \<noteq> 0" "dl_len te \<noteq> 0" "L \<noteq> 0"
      and "epoch_passes C tr te (world st) = (s, train_loss_sum, train_acc_sum, test_loss_sum, test_acc_sum)"
  shows "\<exists>st'. train_classifier_epoch C tr te M L e st = Inr st'
     \<and> dict_get (logs st') ''train_loss'' = dict_get (logs st) ''train_loss'' @ [train_loss_sum / real (dl_len tr)]
     \<and> dict_get (logs st') ''test_loss'' = dict_get (logs st) ''test_loss'' @ [test_loss_sum / real (dl_len te)]
     \<and> dict_get (logs st') ''train_acc'' = dict_get (logs st) ''train_acc'' @ [train_acc_sum / real (dl_len tr)]
     \<and> dict_get (logs st') ''test_acc'' = dict_get (logs st) ''test_acc'' @ [test_acc_sum / real (dl_len te)]
     \<and> (\<forall>k. k \<notin> {''train_loss'', ''test_loss'', ''train_acc'', ''test_acc''}
            \<longrightarrow> dict_get (logs st') k = dict_get (logs st) k)
     \<and> map fst (logs st') = map fst (logs st) @
          filter (\<lambda>k. k \<notin> set (map fst (logs st)))
            [''train_loss'', ''test_loss'', ''train_acc'', ''test_acc'']"
proof -
  have ee: "epoch_effect C tr te (world st, logs st) =
      (s, dict_append ''test_acc'' (test_acc_sum / real (dl_len te))
            (dict_append ''train_acc'' (train_acc_sum / real (dl_len tr))
            (dict_append ''test_loss'' (test_loss_sum / real (dl_len te))
            (dict_append ''train_loss'' (train_loss_sum / real (dl_len tr)) (logs st)))))"
    by (simp add: epoch_effect_def assms(4))
  show ?thesis
    unfolding train_classifier_epoch_ok[OF assms(1-3)] ee
    by (simp add: dict_get_dict_append keys_dict_append)
qed

subsection \<open>The values appended by one epoch\<close>

lemma train_values_length: "length (snd (train_values C bs s)) = length bs"
proof (induction bs arbitrary: s)
  case Nil
  then show ?case by simp
next
  case (Cons b bs)
  obtain s' l a where tb: "train_batch C s b = (s', l, a)" by (metis prod_cases3)
  obtain s'' vs where tv: "train_values C bs s' = (s'', vs)" by (metis prod.exhaust)
  from Cons.IH[of s'] show ?case by (simp add: tb tv)
qed

lemma train_pass_values:
  "train_pass C bs s =
     (fst (train_values C bs s),
      sum_list (map fst (snd (train_values C bs s))),
      sum_list (map snd (snd (train_values C bs s))))"
proof -
  have "fold (\<lambda>b (s, loss_sum, acc_sum).
             case train_batch C s b of (s', l, a) \<Rightarrow> (s', loss_sum + l, acc_sum + a)) bs (s, x, y)
        = (fst (train_values C bs s),
           x + sum_list (map fst (snd (train_values C bs s))),
           y + sum_list (map snd (snd (train_values C bs s))))" for x y
    by (induction bs arbitrary: s x y) (simp_all split: prod.splits add: algebra_simps)
  then show ?thesis unfolding train_pass_def by simp
qed

lemma epoch_passes_means:
  assumes "epoch_means C tr te s0 = (s, m_tl, m_el, m_ta, m_ea)"
  shows "\<exists>train_loss_sum train_acc_sum test_loss_sum test_acc_sum.
           epoch_passes C tr te s0 = (s, train_loss_sum, train_acc_sum, test_loss_sum, test_acc_sum)
         \<and> m_tl = train_loss_sum / real (dl_len tr) \<and> m_el = test_loss_sum / real (dl_len te)
         \<and> m_ta = train_acc_sum / real (dl_len tr) \<and> m_ea = test_acc_sum / real (dl_len te)"
  using assms
  by (auto simp: epoch_means_def epoch_passes_def train_pass_values eval_pass_sums Let_def
        comp_def split: prod.splits)

lemma enumerate_train_values:
  assumes "idx + length bs = length t_loss" "length t_acc = length t_loss"
  shows "enumerate_train C idx bs (s, t_loss, t_acc) =
           Inr (fst (train_values C bs s),
                take idx t_loss @ map fst (snd (train_values C bs s)),
                take idx t_acc @ map snd (snd (train_values C bs s)))"
  using assms
proof (induction bs arbitrary: idx s t_loss t_acc)
  case Nil
  then show ?case by simp
next
  case (Cons b bs)
  obtain s' l a where tb: "train_batch C s b = (s', l, a)" by (metis prod_cases3)
  obtain s'' vs where tv: "train_values C bs s' = (s'', vs)" by (metis prod.exhaust)
  have i: "idx < length t_loss" "idx < length t_acc" using Cons.prems by simp_all
  have step: "enumerate_train C idx (b # bs) (s, t_loss, t_acc)
        = enumerate_train C (Suc idx) bs (s', t_loss[idx := l], t_acc[idx := a])"
    by (simp add: tb tensor_setitem_ok i)
  have p: "Suc idx + length bs = length (t_loss[idx := l])"
    "length (t_acc[idx := a]) = length (t_loss[idx := l])"
    using Cons.prems by simp_all
  have t1: "take (Suc idx) (t_loss[idx := l]) = take idx t_loss @ [l]"
    using i(1) by (simp add: take_Suc_conv_app_nth)
  have t2: "take (Suc idx) (t_acc[idx := a]) = take idx t_acc @ [a]"
    using i(2) by (simp add: take_Suc_conv_app_nth)
  show ?case unfolding step Cons.IH[OF p] t1 t2 by (simp add: tb tv)
qed

lemma enumerate_validation_values:
  assumes "idx + length bs = length v_loss" "length v_acc = length v_loss"
  shows "enumerate_validation C s idx bs (v_loss, v_acc) =
           Inr (take idx v_loss @ map (\<lambda>b. fst (eval_batch C s b)) bs,
                take idx v_acc @ map (\<lambda>b. snd (eval_batch C s b)) bs)"
  using assms
proof (induction bs arbitrary: idx v_loss v_acc)
  case Nil
  then show ?case by simp
next
  case (Cons b bs)
  obtain l a where eb: "eval_batch C s b = (l, a)" by (metis prod.exhaust)
  have i: "idx < length v_loss" "idx < length v_acc" using Cons.prems by simp_all
  have step: "enumerate_validation C s idx (b # bs) (v_loss, v_acc)
        = enumerate_validation C s (Suc idx) bs (v_loss[idx := l], v_acc[idx := a])"
    by (simp add: eb tensor_setitem_ok i)
  have p: "Suc idx + length bs = length (v_loss[idx := l])"
    "length (v_acc[idx := a]) = length (v_loss[idx := l])"
    using Cons.prems by simp_all
  have t1: "take (Suc idx) (v_loss[idx := l]) = take idx v_loss @ [l]"
    using i(1) by (simp add: take_Suc_conv_app_nth)
  have t2: "take (Suc idx) (v_acc[idx := a]) = take idx v_acc @ [a]"
    using i(2) by (simp add: take_Suc_conv_app_nth)
  show ?case unfolding step Cons.IH[OF p] t1 t2 by (simp add: eb)
qed

lemma update_swap_present:
  assumes "k \<noteq> k'" "k \<in> fst ` set al"
  shows "AList.update k v (AList.update k' v' al) = AList.update k' v' (AList.update k v al)"
  using assms by (induction al) auto

lemma list_append_swap:
  assumes "k \<noteq> k'" "k \<in> fst ` set d"
  shows "list_append k v (list_append k' v' d) = list_append k' v' (list_append k v d)"
proof -
  have a: "dict_get (AList.update k' (dict_get d k' @ [v']) d) k = dict_get d k"
    using assms(1) by (simp add: dict_get_def update_conv')
  have b: "dict_get (AList.update k (dict_get d k @ [v]) d) k' = dict_get d k'"
    using assms(1) by (simp add: dict_get_def update_conv')
  show ?thesis unfolding list_append_def a b by (rule update_swap_present[OF assms])
qed

lemma tensor_mean_values:
  "xs \<noteq> [] \<Longrightarrow> tensor_mean xs = Num (sum_list xs / real (length xs))"
  by (simp add: tensor_mean_def)

lemma training_cell_epoch_means:
  assumes wf_tr: "\<And>s. length (fst (dl_iter tr s)) = dl_len tr"
      and wf_va: "\<And>s. length (fst (dl_iter va s)) = dl_len va"
      and tr0: "dl_len tr \<noteq> 0" and va0: "dl_len va \<noteq> 0"
      and L: "L \<noteq> 0"
      and inv: "cell_inv tr va st"
      and em: "epoch_means C tr va (cell_world st) = (s, m_tl, m_el, m_ta, m_ea)"
  shows "\<exists>st'. training_cell_epoch C tr va M L e st = Inr st' \<and> cell_world st' = s
           \<and> results st' = list_append ''validation_acc'' (Num m_ea)
                (list_append ''validation_losses'' (Num m_el)
                  (list_append ''train_acc'' (Num m_ta)
                    (list_append ''train_losses'' (Num m_tl) (results st))))"
proof -
  obtain tbs s1 where it: "dl_iter tr (model_train C (cell_world st)) = (tbs, s1)"
    by (metis prod.exhaust)
  obtain s2 tv where tv: "train_values C tbs s1 = (s2, tv)" by (metis prod.exhaust)
  obtain vbs s3 where iv: "dl_iter va (model_eval C s2) = (vbs, s3)"
    by (metis prod.exhaust)
  let ?ev = "map (eval_batch C s3) vbs"
  have ltbs: "length tbs = dl_len tr" using wf_tr[of "model_train C (cell_world st)"] it by simp
  have lvbs: "length vbs = dl_len va" using wf_va[of "model_eval C s2"] iv by simp
  have ltv: "length tv = dl_len tr" using train_values_length[of C tbs s1] tv ltbs by simp
  have i1: "0 + length tbs = length (train_loss st)" "length (train_acc st) = length (train_loss st)"
    using inv ltbs unfolding cell_inv_def by simp_all
  have i2: "0 + length vbs = length (validation_loss st)"
    "length (validation_acc st) = length (validation_loss st)"
    using inv lvbs unfolding cell_inv_def by simp_all
  have et: "enumerate_train C 0 tbs (s1, train_loss st, train_acc st)
              = Inr (s2, map fst tv, map snd tv)"
    unfolding enumerate_train_values[OF i1] by (simp add: tv)
  have ev: "enumerate_validation C s3 0 vbs (validation_loss st, validation_acc st)
              = Inr (map fst ?ev, map snd ?ev)"
    unfolding enumerate_validation_values[OF i2] by (simp add: comp_def)
  from em have m: "s = s3"
    "m_tl = sum_list (map fst tv) / real (dl_len tr)"
    "m_el = sum_list (map fst ?ev) / real (dl_len va)"
    "m_ta = sum_list (map snd tv) / real (dl_len tr)"
    "m_ea = sum_list (map snd ?ev) / real (dl_len va)"
    by (auto simp add: epoch_means_def it tv iv Let_def)
  have tm: "tensor_mean (map fst tv) = Num m_tl" "tensor_mean (map snd tv) = Num m_ta"
    "tensor_mean (map fst ?ev) = Num m_el" "tensor_mean (map snd ?ev) = Num m_ea"
    using ltv lvbs tr0 va0 unfolding m tensor_mean_def by auto
  have tm': "tensor_mean (map (fst \<circ> eval_batch C s3) vbs) = Num m_el"
    "tensor_mean (map (snd \<circ> eval_batch C s3) vbs) = Num m_ea"
    using tm(3,4) by simp_all
  show ?thesis
    unfolding training_cell_epoch_def it
    by (simp add: et iv ev Let_def cell_appends_def tm tm' L m(1))
qed

lemma list_append_keys_present:
  "k' \<in> fst ` set d \<Longrightarrow> k' \<in> fst ` set (list_append k v d)"
  using keys_list_append[of k v d]
  by (metis (no_types, lifting) Un_iff list.set_map set_append)

lemma list_append_keys_same:
  "k \<in> fst ` set d \<Longrightarrow> map fst (list_append k v d) = map fst d"
  by (simp add: keys_list_append)

text \<open>
  Claim C8. An epoch that completes appends exactly one value to each of the four metric
  lists: the mean train loss, the mean eval loss, the mean train accuracy and the mean eval
  accuracy of that epoch (\<open>epoch_means\<close>), each at the end of its list; every other entry stays
  as it was. \<^verbatim>\<open>train_classifier\<close> appends in this order, which is the order in which it creates
  the keys of an empty \<open>logs\<close>. The training cell of the convnets notebook, whose \<open>results\<close>
  holds the four keys from the start, executes the two middle statements the other way round;
  the dictionary it leaves is the one that appending in the order of the claim gives, with
  the keys in their old order.
\<close>

theorem epoch_appends_one_value_per_metric:
  assumes "dl_len tr \<noteq> 0" "dl_len te \<noteq> 0" "L \<noteq> 0"
      and "\<forall>s. length (fst (dl_iter tr s)) = dl_len tr"
      and "\<forall>s. length (fst (dl_iter te s)) = dl_len te"
      and "epoch_means C tr te (world st) = (s, m_tl, m_el, m_ta, m_ea)"
  shows "(\<exists>st'. train_classifier_epoch C tr te M L e st = Inr st'
     \<and> dict_get (logs st') ''train_loss'' = dict_get (logs st) ''train_loss'' @ [m_tl]
     \<and> dict_get (logs st') ''test_loss'' = dict_get (logs st) ''test_loss'' @ [m_el]
     \<and> dict_get (logs st') ''train_acc'' = dict_get (logs st) ''train_acc'' @ [m_ta]
     \<and> dict_get (logs st') ''test_acc'' = dict_get (logs st) ''test_acc'' @ [m_ea]
     \<and> (\<forall>k. k \<notin> {''train_loss'', ''test_loss'', ''train_acc'', ''test_acc''}
            \<longrightarrow> dict_get (logs st') k = dict_get (logs st) k)
     \<and> map fst (logs st') = map fst (logs st) @
          filter (\<lambda>k. k \<notin> set (map fst (logs st)))
            [''train_loss'', ''test_loss'', ''train_acc'', ''test_acc''])
   \<and> (cell_inv tr te cst \<and> cell_world cst = world st
        \<and> {''train_losses'', ''validation_losses'', ''train_acc'', ''validation_acc''}
             \<subseteq> fst ` set (results cst) \<longrightarrow>
       (\<exists>cst'. training_cell_epoch C tr te M L e cst = Inr cst'
         \<and> results cst' = fold (\<lambda>(k, m). list_append k m)
              [(''train_losses'', Num m_tl), (''validation_losses'', Num m_el),
               (''train_acc'', Num m_ta), (''validation_acc'', Num m_ea)] (results cst)
         \<and> dict_get (results cst') ''train_losses'' = dict_get (results cst) ''train_losses'' @ [Num m_tl]
         \<and> dict_get (results cst') ''validation_losses'' = dict_get (results cst) ''validation_losses'' @ [Num m_el]
         \<and> dict_get (results cst') ''train_acc'' = dict_get (results cst) ''train_acc'' @ [Num m_ta]
         \<and> dict_get (results cst') ''validation_acc'' = dict_get (results cst) ''validation_acc'' @ [Num m_ea]
         \<and> (\<forall>k. k \<notin> {''train_losses'', ''validation_losses'', ''train_acc'', ''validation_acc''}
              \<longrightarrow> dict_get (results cst') k = dict_get (results cst) k)
         \<and> map fst (results cst') = map fst (results cst)))"
proof (intro conjI impI)
  from epoch_passes_means[OF assms(6)]
  obtain train_loss_sum train_acc_sum test_loss_sum test_acc_sum where
    ep: "epoch_passes C tr te (world st) = (s, train_loss_sum, train_acc_sum, test_loss_sum, test_acc_sum)"
    and m: "m_tl = train_loss_sum / real (dl_len tr)" "m_el = test_loss_sum / real (dl_len te)"
           "m_ta = train_acc_sum / real (dl_len tr)" "m_ea = test_acc_sum / real (dl_len te)"
    by blast
  show "\<exists>st'. train_classifier_epoch C tr te M L e st = Inr st'
     \<and> dict_get (logs st') ''train_loss'' = dict_get (logs st) ''train_loss'' @ [m_tl]
     \<and> dict_get (logs st') ''test_loss'' = dict_get (logs st) ''test_loss'' @ [m_el]
     \<and> dict_get (logs st') ''train_acc'' = dict_get (logs st) ''train_acc'' @ [m_ta]
     \<and> dict_get (logs st') ''test_acc'' = dict_get (logs st) ''test_acc'' @ [m_ea]
     \<and> (\<forall>k. k \<notin> {''train_loss'', ''test_loss'', ''train_acc'', ''test_acc''}
            \<longrightarrow> dict_get (logs st') k = dict_get (logs st) k)
     \<and> map fst (logs st') = map fst (logs st) @
          filter (\<lambda>k. k \<notin> set (map fst (logs st)))
            [''train_loss'', ''test_loss'', ''train_acc'', ''test_acc'']"
    unfolding m by (rule train_classifier_epoch_appends[OF assms(1-3) ep])
next
  assume a: "cell_inv tr te cst \<and> cell_world cst = world st
        \<and> {''train_losses'', ''validation_losses'', ''train_acc'', ''validation_acc''}
             \<subseteq> fst ` set (results cst)"
  hence inv: "cell_inv tr te cst" and w: "cell_world cst = world st"
    and k1: "''train_losses'' \<in> fst ` set (results cst)"
    and k2: "''validation_losses'' \<in> fst ` set (results cst)"
    and k3: "''train_acc'' \<in> fst ` set (results cst)"
    and k4: "''validation_acc'' \<in> fst ` set (results cst)"
    by simp_all
  have wf: "\<And>s. length (fst (dl_iter tr s)) = dl_len tr"
    "\<And>s. length (fst (dl_iter te s)) = dl_len te"
    using assms(4,5) by simp_all
  have em: "epoch_means C tr te (cell_world cst) = (s, m_tl, m_el, m_ta, m_ea)"
    unfolding w by (rule assms(6))
  from training_cell_epoch_means[OF wf assms(1,2,3) inv em, of M e]
  obtain cst' where r: "training_cell_epoch C tr te M L e cst = Inr cst'"
    and n: "results cst' = list_append ''validation_acc'' (Num m_ea)
                (list_append ''validation_losses'' (Num m_el)
                  (list_append ''train_acc'' (Num m_ta)
                    (list_append ''train_losses'' (Num m_tl) (results cst))))"
    by blast
  let ?d1 = "list_append ''train_losses'' (Num m_tl) (results cst)"
  have k2': "''validation_losses'' \<in> fst ` set ?d1"
    by (rule list_append_keys_present[OF k2])
  have sw: "list_append ''validation_losses'' (Num m_el) (list_append ''train_acc'' (Num m_ta) ?d1)
          = list_append ''train_acc'' (Num m_ta) (list_append ''validation_losses'' (Num m_el) ?d1)"
    by (rule list_append_swap[OF _ k2']) simp
  have f: "results cst' = fold (\<lambda>(k, m). list_append k m)
              [(''train_losses'', Num m_tl), (''validation_losses'', Num m_el),
               (''train_acc'', Num m_ta), (''validation_acc'', Num m_ea)] (results cst)"
    unfolding n sw by simp
  have g: "dict_get (results cst') k =
   (if k = ''train_losses'' then dict_get (results cst) k @ [Num m_tl]
    else if k = ''train_acc'' then dict_get (results cst) k @ [Num m_ta]
    else if k = ''validation_losses'' then dict_get (results cst) k @ [Num m_el]
    else if k = ''validation_acc'' then dict_get (results cst) k @ [Num m_ea]
    else dict_get (results cst) k)" for k
    unfolding n by (rule cell_results_get)
  have ks: "map fst (results cst') = map fst (results cst)"
    unfolding n
    by (simp add: list_append_keys_same list_append_keys_present k1 k2 k3 k4)
  show "\<exists>cst'. training_cell_epoch C tr te M L e cst = Inr cst'
         \<and> results cst' = fold (\<lambda>(k, m). list_append k m)
              [(''train_losses'', Num m_tl), (''validation_losses'', Num m_el),
               (''train_acc'', Num m_ta), (''validation_acc'', Num m_ea)] (results cst)
         \<and> dict_get (results cst') ''train_losses'' = dict_get (results cst) ''train_losses'' @ [Num m_tl]
         \<and> dict_get (results cst') ''validation_losses'' = dict_get (results cst) ''validation_losses'' @ [Num m_el]
         \<and> dict_get (results cst') ''train_acc'' = dict_get (results cst) ''train_acc'' @ [Num m_ta]
         \<and> dict_get (results cst') ''validation_acc'' = dict_get (results cst) ''validation_acc'' @ [Num m_ea]
         \<and> (\<forall>k. k \<notin> {''train_losses'', ''validation_losses'', ''train_acc'', ''validation_acc''}
              \<longrightarrow> dict_get (results cst') k = dict_get (results cst) k)
         \<and> map fst (results cst') = map fst (results cst)"
  proof (intro exI[of _ cst'] conjI allI impI)
    show "training_cell_epoch C tr te M L e cst = Inr cst'" by (rule r)
    show "results cst' = fold (\<lambda>(k, m). list_append k m)
              [(''train_losses'', Num m_tl), (''validation_losses'', Num m_el),
               (''train_acc'', Num m_ta), (''validation_acc'', Num m_ea)] (results cst)"
      by (rule f)
    show "dict_get (results cst') ''train_losses'' = dict_get (results cst) ''train_losses'' @ [Num m_tl]"
      unfolding g by simp
    show "dict_get (results cst') ''validation_losses'' = dict_get (results cst) ''validation_losses'' @ [Num m_el]"
      unfolding g by simp
    show "dict_get (results cst') ''train_acc'' = dict_get (results cst) ''train_acc'' @ [Num m_ta]"
      unfolding g by simp
    show "dict_get (results cst') ''validation_acc'' = dict_get (results cst) ''validation_acc'' @ [Num m_ea]"
      unfolding g by simp
    show "dict_get (results cst') k = dict_get (results cst) k"
      if "k \<notin> {''train_losses'', ''validation_losses'', ''train_acc'', ''validation_acc''}" for k
      using that unfolding g by simp
    show "map fst (results cst') = map fst (results cst)" by (rule ks)
  qed
qed

theorem epoch_appends_one_value_per_metric_witness:
  "(\<exists>st'. train_classifier_epoch
      \<lparr>model_train = id, model_eval = id,
       train_batch = (\<lambda>s b. (s + 1, 3, 1)), eval_batch = (\<lambda>s b. (1 / 2, 1))\<rparr>
      \<lparr>dl_len = 2, dl_iter = (\<lambda>s. ([(), ()], s))\<rparr>
      \<lparr>dl_len = 1, dl_iter = (\<lambda>s. ([()], s))\<rparr>
      3 5 0 \<lparr>world = 0::nat, logs = [(''train_loss'', [9])], printed = []\<rparr> = Inr st'
     \<and> dict_get (logs st') ''train_loss'' = [9, 3] \<and> dict_get (logs st') ''test_loss'' = [1 / 2]
     \<and> dict_get (logs st') ''train_acc'' = [1] \<and> dict_get (logs st') ''test_acc'' = [1]
     \<and> map fst (logs st') = [''train_loss'', ''test_loss'', ''train_acc'', ''test_acc''])
   \<and> (\<exists>cst'. training_cell_epoch
      \<lparr>model_train = id, model_eval = id,
       train_batch = (\<lambda>s b. (s + 1, 3, 1)), eval_batch = (\<lambda>s b. (1 / 2, 1))\<rparr>
      \<lparr>dl_len = 2, dl_iter = (\<lambda>s. ([(), ()], s))\<rparr>
      \<lparr>dl_len = 1, dl_iter = (\<lambda>s. ([()], s))\<rparr>
      3 5 0 \<lparr>cell_world = 0::nat,
              results = [(''train_losses'', [Num 7]), (''validation_losses'', []),
                         (''train_acc'', []), (''validation_acc'', [])],
              train_loss = [0, 0], train_acc = [0, 0],
              validation_loss = [0], validation_acc = [0], cell_printed = []\<rparr> = Inr cst'
     \<and> results cst' = [(''train_losses'', [Num 7, Num 3]), (''validation_losses'', [Num (1 / 2)]),
                        (''train_acc'', [Num 1]), (''validation_acc'', [Num 1])])"
proof -
  let ?C = "\<lparr>model_train = id, model_eval = id,
       train_batch = (\<lambda>(s::nat) (b::unit). (s + 1, 3::real, 1::real)),
       eval_batch = (\<lambda>(s::nat) (b::unit). (1 / 2 :: real, 1::real))\<rparr>"
  let ?tr = "\<lparr>dl_len = 2, dl_iter = (\<lambda>s::nat. ([(), ()], s))\<rparr>"
  let ?te = "\<lparr>dl_len = 1, dl_iter = (\<lambda>s::nat. ([()], s))\<rparr>"
  let ?st = "\<lparr>world = 0::nat, logs = [(''train_loss'', [9])], printed = []\<rparr>"
  let ?cst = "\<lparr>cell_world = 0::nat,
              results = [(''train_losses'', [Num 7]), (''validation_losses'', []),
                         (''train_acc'', []), (''validation_acc'', [])],
              train_loss = [0, 0], train_acc = [0, 0],
              validation_loss = [0], validation_acc = [0], cell_printed = []\<rparr>"
  have h1: "dl_len ?tr \<noteq> 0" by simp
  have h2: "dl_len ?te \<noteq> 0" by simp
  have h3: "(5::int) \<noteq> 0" by simp
  have h4: "\<forall>s. length (fst (dl_iter ?tr s)) = dl_len ?tr" by simp
  have h5: "\<forall>s. length (fst (dl_iter ?te s)) = dl_len ?te" by simp
  have h6: "epoch_means ?C ?tr ?te (world ?st) = (2, 3, 1 / 2, 1, 1)"
    by (simp add: epoch_means_def)
  have h7: "cell_inv ?tr ?te ?cst \<and> cell_world ?cst = world ?st
        \<and> {''train_losses'', ''validation_losses'', ''train_acc'', ''validation_acc''}
             \<subseteq> fst ` set (results ?cst)"
    by (simp add: cell_inv_def)
  note t = epoch_appends_one_value_per_metric[OF h1 h2 h3 h4 h5 h6, of 3 0 ?cst]
  note t1 = t[THEN conjunct1]
  have one: "\<exists>st'. train_classifier_epoch ?C ?tr ?te 3 5 0 ?st = Inr st'
     \<and> dict_get (logs st') ''train_loss'' = [9, 3] \<and> dict_get (logs st') ''test_loss'' = [1 / 2]
     \<and> dict_get (logs st') ''train_acc'' = [1] \<and> dict_get (logs st') ''test_acc'' = [1]
     \<and> map fst (logs st') = [''train_loss'', ''test_loss'', ''train_acc'', ''test_acc'']"
    using t1
    by (elim exE conjE, rule_tac x = st' in exI) (simp add: dict_get_def)
  note t2 = t[THEN conjunct2, THEN mp, OF h7]
  have two: "\<exists>cst'. training_cell_epoch ?C ?tr ?te 3 5 0 ?cst = Inr cst'
     \<and> results cst' = [(''train_losses'', [Num 7, Num 3]), (''validation_losses'', [Num (1 / 2)]),
                        (''train_acc'', [Num 1]), (''validation_acc'', [Num 1])]"
    using t2
    by (elim exE conjE, rule_tac x = cst' in exI) (simp add: dict_get_def list_append_def)
  from one two show ?thesis by (rule conjI)
qed

end
